theory Spec2Isabelle
  imports Complex_Main "HOL-Library.Word"
begin

chapter \<open>ABDS front end: a shallow embedding of the TypeScript sources\<close>

text \<open>
  The development follows the sources file by file. JavaScript numbers that the code uses as
  counters, sizes and indices are integers (\<open>nat\<close> or \<open>int\<close>); scores are \<open>real\<close> (so a
  score is never \<^verbatim>\<open>NaN\<close> here). The value of every expression that calls
  \<^verbatim>\<open>Math.random()\<close>, as the arithmetic of the JavaScript numbers computes it, every answer
  of the network and every reading of the clock is an input of the model. Message texts,
  which are Japanese in the sources, are rendered in English; each of them is a non-empty
  string literal in the source as it is here.
\<close>

section \<open>Definitions\<close>

subsection \<open>JavaScript primitives\<close>

text \<open>
  \<^verbatim>\<open>Array.prototype.slice(start, end)\<close> and \<^verbatim>\<open>String.prototype.slice\<close> on integer
  arguments: a negative index counts from the end, both indices are clamped to the length,
  and an empty range gives the empty list.
\<close>

definition slice :: "'a list \<Rightarrow> int \<Rightarrow> int \<Rightarrow> 'a list" where
  "slice xs start fin =
     (let len = int (length xs);
          k = (if start < 0 then max (len + start) 0 else min start len);
          final = (if fin < 0 then max (len + fin) 0 else min fin len)
      in take (nat (final - k)) (drop (nat k) xs))"

text \<open>\<^verbatim>\<open>slice(start)\<close> with the end left out runs to the end of the list.\<close>

definition slice_from :: "'a list \<Rightarrow> int \<Rightarrow> 'a list" where
  "slice_from xs start = slice xs start (int (length xs))"

text \<open>
  A JavaScript string is a sequence of UTF-16 code units and \<^verbatim>\<open>length\<close> counts them.
  \<^verbatim>\<open>s.repeat(n)\<close> is \<open>n\<close> copies of \<open>s\<close> (a negative count raises a \<^verbatim>\<open>RangeError\<close>; the
  count is a \<open>nat\<close> here, and the only caller passes \<open>key.length\<close> or, when
  \<open>key.length > 8\<close>, \<open>key.length - 8\<close>).
\<close>

type_synonym js_string = "16 word list"

definition repeat :: "js_string \<Rightarrow> nat \<Rightarrow> js_string" where
  "repeat s n = concat (replicate n s)"

subsection \<open>\<^verbatim>\<open>src/utils/helpers.ts\<close>: chunk\<close>

text \<open>
  \<^verbatim>\<open>for (let i = 0; i < array.length; i += size) chunks.push(array.slice(i, i + size))\<close>.
  With \<open>size \<le> 0\<close> and a non-empty array the loop never ends, so the loop is a partial
  function and not returning is the value \<open>None\<close>.
\<close>

partial_function (option) chunk_loop ::
  "'a list \<Rightarrow> int \<Rightarrow> int \<Rightarrow> 'a list list \<Rightarrow> 'a list list option" where
  "chunk_loop array sz i chunks =
     (if i < int (length array)
      then chunk_loop array sz (i + sz) (chunks @ [slice array i (i + sz)])
      else Some chunks)"

declare chunk_loop.simps [code]

definition chunk :: "'a list \<Rightarrow> int \<Rightarrow> 'a list list option" where
  "chunk array sz = chunk_loop array sz 0 []"

subsection \<open>The settings service: maskAPIKey\<close>

text \<open>The mask character is U+25CF, one UTF-16 code unit.\<close>

definition bullet :: "16 word" where
  "bullet = 0x25CF"

definition maskAPIKey :: "js_string \<Rightarrow> js_string" where
  "maskAPIKey key =
     (if key = [] then []
      else if length key \<le> 8 then repeat [bullet] (length key)
      else slice key 0 4 @ repeat [bullet] (length key - 8) @ slice_from key (- 4))"

subsection \<open>The settings service: validateThresholds\<close>

text \<open>
  \<^verbatim>\<open>ThresholdSettings\<close>, with its five groups flattened into one record; a field
  \<open>group.name\<close> of the source is \<open>group_name\<close> here.
\<close>

record ThresholdSettings =
  threatScore_safe :: real
  threatScore_low :: real
  threatScore_medium :: real
  threatScore_high :: real
  similarityScore_minimum :: real
  similarityScore_high :: real
  confidenceScore_minimum :: real
  confidenceScore_reliable :: real
  domainTrust_minimum :: real
  domainTrust_trusted :: real
  aiAnalysis_contentAbuse :: real
  aiAnalysis_copyrightInfringement :: real
  aiAnalysis_commercialUseThreshold :: real

text \<open>The thresholds of \<^verbatim>\<open>defaultSettings\<close>.\<close>

definition defaultThresholds :: ThresholdSettings where
  "defaultThresholds =
     \<lparr>threatScore_safe = 20, threatScore_low = 40, threatScore_medium = 70,
      threatScore_high = 85,
      similarityScore_minimum = 60, similarityScore_high = 85,
      confidenceScore_minimum = 50, confidenceScore_reliable = 80,
      domainTrust_minimum = 30, domainTrust_trusted = 80,
      aiAnalysis_contentAbuse = 70, aiAnalysis_copyrightInfringement = 75,
      aiAnalysis_commercialUseThreshold = 80\<rparr>"

text \<open>
  The list \<^verbatim>\<open>allScores\<close> of the range check, as the source writes it: the four threat
  scores and the similarity, confidence and domain-trust pairs.
\<close>

definition allScores :: "ThresholdSettings \<Rightarrow> real list" where
  "allScores t =
     [threatScore_safe t, threatScore_low t, threatScore_medium t, threatScore_high t,
      similarityScore_minimum t, similarityScore_high t,
      confidenceScore_minimum t, confidenceScore_reliable t,
      domainTrust_minimum t, domainTrust_trusted t]"

definition validateThresholds :: "ThresholdSettings \<Rightarrow> string list" where
  "validateThresholds t =
     (let safe = threatScore_safe t; low = threatScore_low t;
          medium = threatScore_medium t; high = threatScore_high t;
          errors1 = (if safe \<ge> low
                     then [''The safe score must be smaller than the low-risk score''] else []);
          errors2 = errors1 @ (if low \<ge> medium
                     then [''The low-risk score must be smaller than the medium-risk score'']
                     else []);
          errors3 = errors2 @ (if medium \<ge> high
                     then [''The medium-risk score must be smaller than the high-risk score'']
                     else [])
      in if list_ex (\<lambda>score. score < 0 \<or> score > 100) (allScores t)
         then errors3 @ [''All scores must be within the range 0-100'']
         else errors3)"

text \<open>Every threshold value that a \<^verbatim>\<open>ThresholdSettings\<close> configures.\<close>

definition configuredThresholds :: "ThresholdSettings \<Rightarrow> real list" where
  "configuredThresholds t =
     allScores t @ [aiAnalysis_contentAbuse t, aiAnalysis_copyrightInfringement t,
                    aiAnalysis_commercialUseThreshold t]"

subsection \<open>The image service: validateImageFile and uploadImage\<close>

text \<open>The fields of a browser \<^verbatim>\<open>File\<close> that the code reads.\<close>

record File =
  file_name :: string
  file_size :: nat
  file_type :: string

text \<open>\<^verbatim>\<open>UPLOAD_CONFIG\<close>.\<close>

definition maxFileSize :: nat where
  "maxFileSize = 10 * 1024 * 1024"

definition allowedTypes :: "string list" where
  "allowedTypes = [''image/jpeg'', ''image/png'', ''image/gif'', ''image/webp'']"

definition maxFiles_default :: nat where
  "maxFiles_default = 10"

text \<open>Decimal rendering of a number in a template string.\<close>

definition digit :: "nat \<Rightarrow> char" where
  "digit d = char_of (d + 48)"

fun decimal :: "nat \<Rightarrow> string" where
  "decimal n = (if 10 \<le> n then decimal (n div 10) @ [digit (n mod 10)] else [digit n])"

declare decimal.simps [simp del]

text \<open>The result is \<^verbatim>\<open>string | null\<close>: \<open>None\<close> is \<^verbatim>\<open>null\<close>.\<close>

definition validateImageFile :: "File \<Rightarrow> string option" where
  "validateImageFile file =
     (if file_size file > maxFileSize
      then Some (''The file is too large. The maximum is ''
                 @ decimal (maxFileSize div 1024 div 1024) @ ''MB.'')
      else if file_type file \<notin> set allowedTypes
      then Some ''Unsupported file format. Only JPEG, PNG, GIF and WebP are supported.''
      else None)"

text \<open>
  JavaScript truthiness of a \<^verbatim>\<open>string | null | undefined\<close>: \<^verbatim>\<open>null\<close>, \<^verbatim>\<open>undefined\<close> and the
  empty string are falsy. \<open>or_default v d\<close> is \<^verbatim>\<open>v || d\<close>.
\<close>

definition truthy :: "string option \<Rightarrow> bool" where
  "truthy v = (case v of None \<Rightarrow> False | Some s \<Rightarrow> s \<noteq> [])"

definition or_default :: "string option \<Rightarrow> string \<Rightarrow> string" where
  "or_default v d = (case v of None \<Rightarrow> d | Some s \<Rightarrow> if s \<noteq> [] then s else d)"

datatype image_status = ImagePending | ImageProcessing | ImageCompleted | ImageFailed

record ImageUploadResponse =
  response_id :: string
  response_filename :: string
  response_originalName :: string
  response_size :: nat
  response_mimeType :: string
  response_uploadPath :: string
  response_thumbnailPath :: "string option"
  response_status :: image_status
  response_createdAt :: string

text \<open>
  What \<^verbatim>\<open>axios.post\<close> can throw, by the cases that \<open>uploadImage\<close> tells apart: the
  server answered with an error (\<^verbatim>\<open>error.response\<close>) and the body of the answer has the
  \<^verbatim>\<open>message\<close> given, if any; the server answered with an error and the body is \<^verbatim>\<open>null\<close>
  or \<^verbatim>\<open>undefined\<close>, so that reading its \<^verbatim>\<open>message\<close> raises a \<^verbatim>\<open>TypeError\<close>, whose text,
  which the engine chooses, is given; no answer came (\<^verbatim>\<open>error.request\<close>); or anything else
  (with \<^verbatim>\<open>error.message\<close>).
\<close>

datatype axios_error =
  ServerError "string option"
  | ServerErrorNoBody string
  | NoResponse
  | OtherFailure "string option"

text \<open>
  A thrown \<^verbatim>\<open>new Error(message)\<close>, or the \<^verbatim>\<open>TypeError\<close> of the engine with its message;
  both are instances of \<^verbatim>\<open>Error\<close>.
\<close>

datatype js_error = Error string | TypeError string

fun error_message :: "js_error \<Rightarrow> string" where
  "error_message (Error m) = m"
| "error_message (TypeError m) = m"

definition upload_error :: "axios_error \<Rightarrow> js_error" where
  "upload_error e =
     (case e of
        ServerError m \<Rightarrow> Error (or_default m ''The upload failed'')
      | ServerErrorNoBody m \<Rightarrow> TypeError m
      | NoResponse \<Rightarrow> Error ''A network error occurred''
      | OtherFailure m \<Rightarrow> Error (or_default m ''An unknown error occurred''))"

text \<open>
  \<open>uploadImage\<close>, in the two parts that its \<^verbatim>\<open>await\<close> separates. The first part runs
  when the function is called: it validates the file and either throws or issues the request
  \<^verbatim>\<open>axios.post('.../api/v1/images/upload', formData, ...)\<close>; the state is the list of the
  upload requests issued so far. The second part runs when the request settles and maps
  the answer of the network to what the promise settles to (\<open>Inl\<close>: rejected with this
  error). In \<open>uploadImage\<close> the network is the function \<open>post\<close>, its answer for a file.
  The progress callback changes neither the result nor the requests; the percentage that
  it receives, \<^verbatim>\<open>Math.round((progressEvent.loaded * 100) / progressEvent.total)\<close>, is an
  input of the progress event of the component below.
\<close>

definition uploadImage_request :: "File \<Rightarrow> File list \<Rightarrow> js_error option \<times> File list" where
  "uploadImage_request file requests =
     (let validationError = validateImageFile file
      in if truthy validationError then (Some (Error (the validationError)), requests)
         else (None, requests @ [file]))"

definition uploadImage_settle ::
  "axios_error + ImageUploadResponse \<Rightarrow> js_error + ImageUploadResponse" where
  "uploadImage_settle answer =
     (case answer of Inr response \<Rightarrow> Inr response | Inl e \<Rightarrow> Inl (upload_error e))"

definition uploadImage ::
  "(File \<Rightarrow> axios_error + ImageUploadResponse) \<Rightarrow> File \<Rightarrow> File list
     \<Rightarrow> (js_error + ImageUploadResponse) \<times> File list" where
  "uploadImage post file requests =
     (case uploadImage_request file requests of
        (Some err, requests') \<Rightarrow> (Inl err, requests')
      | (None, requests') \<Rightarrow> (uploadImage_settle (post file), requests'))"

subsection \<open>The ImageUploader component\<close>

datatype upload_status = Pending | Uploading | Completed | Failed

record ImageUploadError =
  error_code :: string
  error_text :: string

text \<open>
  An \<^verbatim>\<open>ImageFile\<close>. Its id is the template string \<^verbatim>\<open>`${Date.now()}-${index}`\<close>, which
  determines and is determined by the pair of the two numbers; the pair stands for it.
  The preview URL, a handle that the browser hands out and that no status depends on,
  is left out.
\<close>

type_synonym file_id = "nat \<times> nat"

record ImageFile =
  imf_file :: File
  imf_id :: file_id
  imf_status :: upload_status
  imf_progress :: nat
  imf_response :: "ImageUploadResponse option"
  imf_error :: "ImageUploadError option"

text \<open>
  The messages that the component shows with \<^verbatim>\<open>toast\<close>, one constructor for each template
  of the source, with the values that the template interpolates. \<open>ToastUploadDone\<close> is the
  only \<^verbatim>\<open>toast.success\<close>; the others are \<^verbatim>\<open>toast.error\<close>.
\<close>

datatype toast =
  ToastFileTooLarge string
  | ToastInvalidType string
  | ToastTooManyFiles nat
  | ToastFileError string
  | ToastMaxFiles nat
  | ToastNothingToUpload
  | ToastUploadFailed string string
  | ToastUploadDone nat

text \<open>
  The state of the component: the two \<^verbatim>\<open>useState\<close> cells, and what the model keeps of
  its surroundings: the uploads of the running batch whose promises have not settled (each
  with the \<^verbatim>\<open>imageFile\<close> that its closure holds), the fulfilled uploads of the batch, the
  toasts shown, the arguments of the calls of \<open>uploadImage\<close>, and the upload requests issued.
\<close>

record Uploader =
  files :: "ImageFile list"
  isUploading :: bool
  inflight :: "ImageFile list"
  successful :: "ImageFile list"
  toasts :: "toast list"
  uploadCalls :: "File list"
  requests :: "File list"

definition initial :: Uploader where
  "initial = \<lparr>files = [], isUploading = False, inflight = [], successful = [], toasts = [],
              uploadCalls = [], requests = []\<rparr>"

text \<open>
  A file that react-dropzone rejects comes with its list of errors, each a code and a
  message. The toast for one error of one rejected file:
\<close>

definition rejection_toast :: "nat \<Rightarrow> File \<Rightarrow> string \<times> string \<Rightarrow> toast" where
  "rejection_toast maxFiles file err =
     (if fst err = ''file-too-large'' then ToastFileTooLarge (file_name file)
      else if fst err = ''file-invalid-type'' then ToastInvalidType (file_name file)
      else if fst err = ''too-many-files'' then ToastTooManyFiles maxFiles
      else ToastFileError (snd err))"

text \<open>
  The \<^verbatim>\<open>ImageFile\<close> that \<open>onDrop\<close> builds for the accepted file at position \<open>index\<close>;
  \<open>now\<close> is what \<^verbatim>\<open>Date.now()\<close> returns when this record is built.
\<close>

definition newImageFile :: "nat \<Rightarrow> File \<Rightarrow> nat \<Rightarrow> ImageFile" where
  "newImageFile now file index =
     (let validationError = validateImageFile file
      in \<lparr>imf_file = file,
          imf_id = (now, index),
          imf_status = (if truthy validationError then Failed else Pending),
          imf_progress = 0,
          imf_response = None,
          imf_error = (if truthy validationError
                       then Some \<lparr>error_code = ''validation'', error_text = the validationError\<rparr>
                       else None)\<rparr>)"

definition newImageFiles :: "(nat \<times> File) list \<Rightarrow> ImageFile list" where
  "newImageFiles acceptedFiles =
     map (\<lambda>(index, now, file). newImageFile now file index) (enumerate 0 acceptedFiles)"

text \<open>
  \<open>onDrop\<close>: a toast for every error of every rejected file, then the records of the
  accepted files are appended to the list, which is cut to its first \<open>maxFiles\<close> entries,
  with one toast, when it has become longer. Each accepted file comes with the reading of
  the clock for its id.
\<close>

definition onDrop ::
  "nat \<Rightarrow> (nat \<times> File) list \<Rightarrow> (File \<times> (string \<times> string) list) list \<Rightarrow> Uploader \<Rightarrow> Uploader"
  where
  "onDrop maxFiles acceptedFiles rejectedFiles s =
     (let rejectionToasts =
            concat (map (\<lambda>(file, errors). map (rejection_toast maxFiles file) errors)
                        rejectedFiles);
          combined = files s @ newImageFiles acceptedFiles
      in if length combined > maxFiles
         then s\<lparr>files := slice combined 0 (int maxFiles),
                toasts := toasts s @ rejectionToasts @ [ToastMaxFiles maxFiles]\<rparr>
         else s\<lparr>files := combined, toasts := toasts s @ rejectionToasts\<rparr>)"

definition removeFile :: "file_id \<Rightarrow> Uploader \<Rightarrow> Uploader" where
  "removeFile fileId s = s\<lparr>files := filter (\<lambda>f. imf_id f \<noteq> fileId) (files s)\<rparr>"

definition clearAllFiles :: "Uploader \<Rightarrow> Uploader" where
  "clearAllFiles s = s\<lparr>files := []\<rparr>"

text \<open>
  \<^verbatim>\<open>setFiles(prev => prev.map(f => f.id === id ? {...f, ...} : f))\<close>: the update applies to
  every entry that carries the id.
\<close>

definition update_by_id :: "file_id \<Rightarrow> (ImageFile \<Rightarrow> ImageFile) \<Rightarrow> ImageFile list \<Rightarrow> ImageFile list"
  where
  "update_by_id fileId upd fs = map (\<lambda>f. if imf_id f = fileId then upd f else f) fs"

text \<open>
  \<open>uploadFiles\<close> up to its \<^verbatim>\<open>await\<close>. For each pending file, in order: the status of the
  entries with its id becomes \<open>Uploading\<close>, then \<open>uploadImage\<close> is called on its file and runs
  up to its own \<^verbatim>\<open>await\<close>.
\<close>

definition start_upload :: "ImageFile \<Rightarrow> Uploader \<Rightarrow> Uploader" where
  "start_upload imageFile s =
     s\<lparr>files := update_by_id (imf_id imageFile) (\<lambda>f. f\<lparr>imf_status := Uploading\<rparr>) (files s),
       uploadCalls := uploadCalls s @ [imf_file imageFile],
       requests := snd (uploadImage_request (imf_file imageFile) (requests s)),
       inflight := inflight s @ [imageFile]\<rparr>"

definition uploadFiles :: "Uploader \<Rightarrow> Uploader" where
  "uploadFiles s =
     (let pendingFiles = filter (\<lambda>f. imf_status f = Pending) (files s)
      in if pendingFiles = [] then s\<lparr>toasts := toasts s @ [ToastNothingToUpload]\<rparr>
         else fold start_upload pendingFiles (s\<lparr>isUploading := True\<rparr>))"

text \<open>
  When every promise of the batch has settled (\<^verbatim>\<open>Promise.allSettled\<close>): the success toast
  when at least one upload was fulfilled, and \<^verbatim>\<open>setIsUploading(false)\<close>.
\<close>

definition finish_batch :: "Uploader \<Rightarrow> Uploader" where
  "finish_batch s =
     s\<lparr>toasts := toasts s @ (if successful s \<noteq> [] then [ToastUploadDone (length (successful s))]
                              else []),
       successful := [],
       isUploading := False\<rparr>"

text \<open>
  The upload at position \<open>k\<close> of the unsettled ones settles; \<open>answer\<close> is what the network
  answers to its request. The result of \<open>uploadImage\<close> decides between the two branches of
  the \<^verbatim>\<open>try\<close> in \<open>uploadFiles\<close>.
\<close>

definition settle_upload ::
  "nat \<Rightarrow> axios_error + ImageUploadResponse \<Rightarrow> Uploader \<Rightarrow> Uploader" where
  "settle_upload k answer s =
     (if k \<ge> length (inflight s) then s
      else
        let imageFile = inflight s ! k;
            rest = take k (inflight s) @ drop (Suc k) (inflight s);
            s1 = (case fst (uploadImage (\<lambda>_. answer) (imf_file imageFile) []) of
                    Inr response \<Rightarrow>
                      s\<lparr>files := update_by_id (imf_id imageFile)
                                   (\<lambda>f. f\<lparr>imf_status := Completed, imf_response := Some response,
                                          imf_progress := 100\<rparr>) (files s),
                        successful := successful s
                           @ [imageFile\<lparr>imf_response := Some response, imf_status := Completed\<rparr>]\<rparr>
                  | Inl err \<Rightarrow>
                      s\<lparr>files := update_by_id (imf_id imageFile)
                                   (\<lambda>f. f\<lparr>imf_status := Failed,
                                          imf_error := Some \<lparr>error_code = ''upload'',
                                                             error_text = error_message err\<rparr>,
                                          imf_progress := 0\<rparr>) (files s),
                        toasts := toasts s
                           @ [ToastUploadFailed (file_name (imf_file imageFile))
                                (error_message err)]\<rparr>);
            s2 = s1\<lparr>inflight := rest\<rparr>
        in if rest = [] then finish_batch s2 else s2)"

text \<open>
  The progress callback of the unsettled upload at position \<open>k\<close> is called with the
  percentage \<open>pct\<close>, the rounded number that \<open>uploadImage\<close> computed from the progress
  event.
\<close>

definition upload_progress :: "nat \<Rightarrow> nat \<Rightarrow> Uploader \<Rightarrow> Uploader" where
  "upload_progress k pct s =
     (if k \<ge> length (inflight s) then s
      else s\<lparr>files := update_by_id (imf_id (inflight s ! k))
                        (\<lambda>f. f\<lparr>imf_progress := pct\<rparr>) (files s)\<rparr>)"

text \<open>
  What can happen to the component. The dropzone, the delete buttons and the upload button
  are disabled while \<open>isUploading\<close> holds, and the upload button also while no file is
  pending; a disabled control does nothing.
\<close>

datatype event =
  Drop "(nat \<times> File) list" "(File \<times> (string \<times> string) list) list"
  | RemoveFile file_id
  | ClearAllFiles
  | UploadFiles
  | UploadProgress nat nat
  | UploadSettled nat "axios_error + ImageUploadResponse"

fun step :: "nat \<Rightarrow> Uploader \<Rightarrow> event \<Rightarrow> Uploader" where
  "step maxFiles s (Drop acceptedFiles rejectedFiles) =
     (if isUploading s then s else onDrop maxFiles acceptedFiles rejectedFiles s)"
| "step maxFiles s (RemoveFile fileId) = (if isUploading s then s else removeFile fileId s)"
| "step maxFiles s ClearAllFiles = (if isUploading s then s else clearAllFiles s)"
| "step maxFiles s UploadFiles =
     (if isUploading s \<or> filter (\<lambda>f. imf_status f = Pending) (files s) = [] then s
      else uploadFiles s)"
| "step maxFiles s (UploadProgress k pct) = upload_progress k pct s"
| "step maxFiles s (UploadSettled k answer) = settle_upload k answer s"

definition run :: "nat \<Rightarrow> event list \<Rightarrow> Uploader" where
  "run maxFiles evs = foldl (step maxFiles) initial evs"

text \<open>The ids that the drops of a trace assign, in order.\<close>

fun assigned_ids :: "event list \<Rightarrow> file_id list" where
  "assigned_ids [] = []"
| "assigned_ids (Drop acceptedFiles rejectedFiles # evs) =
     map imf_id (newImageFiles acceptedFiles) @ assigned_ids evs"
| "assigned_ids (e # evs) = assigned_ids evs"

definition terminal :: "upload_status \<Rightarrow> bool" where
  "terminal st = (st = Completed \<or> st = Failed)"

text \<open>
  The order of the statuses along \<^verbatim>\<open>pending\<close>, \<^verbatim>\<open>uploading\<close>, then \<^verbatim>\<open>completed\<close> or
  \<^verbatim>\<open>failed\<close>: \<open>status_le st st'\<close> holds when \<open>st'\<close> is \<open>st\<close> or comes after it. The two
  terminal statuses are not related to each other.
\<close>

definition status_le :: "upload_status \<Rightarrow> upload_status \<Rightarrow> bool" where
  "status_le st st' \<longleftrightarrow> st' = st \<or> st = Pending \<or> (st = Uploading \<and> terminal st')"

text \<open>The id and the status of an entry of the list.\<close>

definition id_status :: "ImageFile \<Rightarrow> file_id \<times> upload_status" where
  "id_status f = (imf_id f, imf_status f)"

text \<open>
  Invariants of the component. \<open>pending_valid\<close>: a pending entry holds a file that passed
  the validation, and so does every file that \<open>uploadImage\<close> was called with.
  \<open>ids_ok seen\<close>, for the set \<open>seen\<close> of the ids assigned so far: the entries of the list
  have different ids, all among \<open>seen\<close>; the unsettled uploads have different ids, the
  entry with the id of an unsettled upload is \<open>Uploading\<close>, and \<open>isUploading\<close> holds
  while an upload is unsettled. \<open>fresh seen e\<close>: the ids that the event \<open>e\<close> assigns are
  different from each other and from those of \<open>seen\<close>.
\<close>

definition pending_valid :: "Uploader \<Rightarrow> bool" where
  "pending_valid s \<longleftrightarrow>
     (\<forall>f \<in> set (files s). imf_status f = Pending \<longrightarrow> validateImageFile (imf_file f) = None)
     \<and> (\<forall>file \<in> set (uploadCalls s). validateImageFile file = None)"

definition ids_ok :: "file_id set \<Rightarrow> Uploader \<Rightarrow> bool" where
  "ids_ok seen s \<longleftrightarrow>
     distinct (map imf_id (files s))
     \<and> set (map imf_id (files s)) \<subseteq> seen
     \<and> distinct (map imf_id (inflight s))
     \<and> (\<forall>g \<in> set (inflight s). \<forall>p \<in> set (map id_status (files s)).
           fst p = imf_id g \<longrightarrow> snd p = Uploading)
     \<and> (inflight s \<noteq> [] \<longrightarrow> isUploading s)"

definition fresh :: "file_id set \<Rightarrow> event \<Rightarrow> bool" where
  "fresh seen e \<longleftrightarrow> distinct (assigned_ids [e]) \<and> set (assigned_ids [e]) \<inter> seen = {}"

text \<open>
  The reading of the specification for a drop that overflows the list: every accepted file
  that the list does not keep has a toast of its own giving the file limit as the reason.
\<close>

definition excess_files_reported ::
  "nat \<Rightarrow> (nat \<times> File) list \<Rightarrow> (File \<times> (string \<times> string) list) list \<Rightarrow> Uploader \<Rightarrow> bool"
  where
  "excess_files_reported maxFiles acceptedFiles rejectedFiles s \<longleftrightarrow>
     length (files s) + length acceptedFiles
       - length (files (onDrop maxFiles acceptedFiles rejectedFiles s))
     \<le> length (filter (\<lambda>t. t = ToastMaxFiles maxFiles \<or> t = ToastTooManyFiles maxFiles)
          (drop (length (toasts s)) (toasts (onDrop maxFiles acceptedFiles rejectedFiles s))))"

subsection \<open>The search service\<close>

datatype threat_level = SAFE | LOW | MEDIUM | HIGH | UNKNOWN

datatype result_status = ACTIVE | REMOVED | INVESTIGATING

fun threat_level_name :: "threat_level \<Rightarrow> string" where
  "threat_level_name SAFE = ''SAFE''"
| "threat_level_name LOW = ''LOW''"
| "threat_level_name MEDIUM = ''MEDIUM''"
| "threat_level_name HIGH = ''HIGH''"
| "threat_level_name UNKNOWN = ''UNKNOWN''"

fun result_status_name :: "result_status \<Rightarrow> string" where
  "result_status_name ACTIVE = ''ACTIVE''"
| "result_status_name REMOVED = ''REMOVED''"
| "result_status_name INVESTIGATING = ''INVESTIGATING''"

datatype sort_order = Asc | Desc

fun sort_order_name :: "sort_order \<Rightarrow> string" where
  "sort_order_name Asc = ''asc''"
| "sort_order_name Desc = ''desc''"

text \<open>\<^verbatim>\<open>FilterConfig\<close> and \<^verbatim>\<open>SearchParams\<close>; the two ranges of the filter are flattened.\<close>

record FilterConfig =
  fc_threatLevels :: "string list"
  fc_domains :: "string list"
  fc_startDate :: "string option"
  fc_endDate :: "string option"
  fc_similarityMin :: real
  fc_similarityMax :: real
  fc_status :: "string list"
  fc_isOfficial :: "bool option"
  fc_hasRiskFactors :: "bool option"
  fc_sortBy :: string
  fc_sortOrder :: sort_order

record SearchParams =
  sp_imageId :: "string option"
  sp_query :: "string option"
  sp_filters :: FilterConfig
  sp_page :: int
  sp_limit :: int

text \<open>
  A \<^verbatim>\<open>SearchResult\<close>. The description, the thumbnail URL and the metadata texts, which
  are templates over the loop index like the title, and the two dates, which come from
  the clock, are left out.
\<close>

record AiAnalysisSummary =
  ai_contentAbuse :: real
  ai_copyrightRisk :: real
  ai_commercialUse :: bool
  ai_unauthorizedRepost :: bool

record SearchResult =
  sr_id :: string
  sr_imageId :: string
  sr_foundUrl :: string
  sr_domain :: string
  sr_title :: string
  sr_similarityScore :: real
  sr_threatLevel :: threat_level
  sr_threatScore :: real
  sr_isOfficial :: bool
  sr_status :: result_status
  sr_riskFactors :: "string list"
  sr_socialShares :: int
  sr_aiAnalysis :: AiAnalysisSummary

text \<open>
  The response. \<open>srr_totalPages\<close> is \<^verbatim>\<open>Math.ceil(totalResults / params.limit)\<close>; \<open>None\<close>
  stands for the value that is not a finite number, which \<open>limit = 0\<close> gives.
\<close>

record SearchResultsResponse =
  srr_results :: "SearchResult list"
  srr_total :: int
  srr_page :: int
  srr_limit :: int
  srr_hasMore :: bool
  srr_totalPages :: "int option"
  srr_facet_domains :: "(string \<times> int) list"
  srr_facet_threatLevels :: "(string \<times> int) list"
  srr_facet_statuses :: "(string \<times> int) list"

definition mockDomains :: "string list" where
  "mockDomains =
     [''example.com'', ''test-site.org'', ''sample.net'', ''demo.co.jp'', ''mock-site.com'',
      ''photo-sharing.io'', ''art-gallery.net'', ''social-media.com'', ''blog-platform.org'',
      ''news-site.jp'', ''e-commerce.store'', ''portfolio.dev'', ''creative-works.art'']"

definition threatLevels :: "threat_level list" where
  "threatLevels = [SAFE, LOW, MEDIUM, HIGH, UNKNOWN]"

definition statuses :: "result_status list" where
  "statuses = [ACTIVE, REMOVED, INVESTIGATING]"

text \<open>
  What one round of the loop of \<open>generateMockSearchResults\<close> computes from
  \<^verbatim>\<open>Math.random()\<close>: one field for each expression of the loop that calls it, holding
  the value of that expression.
  \<^item> \<open>d_domainIndex\<close>, \<open>d_threatLevelIndex\<close>, \<open>d_statusIndex\<close>: the indices
    \<^verbatim>\<open>Math.floor(Math.random() * xs.length)\<close> into \<^verbatim>\<open>mockDomains\<close>, \<^verbatim>\<open>threatLevels\<close>
    and \<^verbatim>\<open>statuses\<close>;
  \<^item> \<open>d_isOfficial\<close>: \<^verbatim>\<open>Math.random() < 0.2\<close>;
  \<^item> \<open>d_similarityScore\<close>: \<^verbatim>\<open>Math.random() * 100\<close>;
  \<^item> \<open>d_scaled base range\<close>: \<^verbatim>\<open>base + Math.random() * range\<close> at the one call in
    \<open>getThreatScore\<close> (for \<open>base = 0\<close>, the product alone);
  \<^item> \<open>d_riskFactorCount\<close>: \<^verbatim>\<open>Math.floor(Math.random() * 4)\<close>;
  \<^item> \<open>d_sortedPool\<close>: the order in which the sort with the random comparator leaves
    \<^verbatim>\<open>riskFactorsPool\<close>;
  \<^item> \<open>d_imageIdNumber\<close>: \<^verbatim>\<open>Math.floor(Math.random() * 10000)\<close>;
  \<^item> \<open>d_socialShares\<close>: \<^verbatim>\<open>Math.floor(Math.random() * 1000)\<close>;
  \<^item> \<open>d_contentAbuse\<close>, \<open>d_copyrightRisk\<close>: \<^verbatim>\<open>Math.random() * 100\<close>;
  \<^item> \<open>d_commercialUse\<close>: \<^verbatim>\<open>Math.random() < 0.3\<close>; \<open>d_unauthorizedRepost\<close>:
    \<^verbatim>\<open>Math.random() < 0.4\<close>.

  \<open>mock_draws\<close> has \<^verbatim>\<open>Math.floor(Math.random() * 200)\<close> for the total, the values of
  the rounds, and \<^verbatim>\<open>Math.floor(Math.random() * 50)\<close>, \<^verbatim>\<open>... * 30)\<close> and \<^verbatim>\<open>... * 40)\<close> for
  the facet counts, by position.
\<close>

record result_draws =
  d_domainIndex :: nat
  d_threatLevelIndex :: nat
  d_statusIndex :: nat
  d_isOfficial :: bool
  d_similarityScore :: real
  d_scaled :: "real \<Rightarrow> real \<Rightarrow> real"
  d_riskFactorCount :: int
  d_sortedPool :: "string list"
  d_imageIdNumber :: int
  d_socialShares :: int
  d_contentAbuse :: real
  d_copyrightRisk :: real
  d_commercialUse :: bool
  d_unauthorizedRepost :: bool

record mock_draws =
  m_total :: int
  m_round :: "nat \<Rightarrow> result_draws"
  m_domainCount :: "nat \<Rightarrow> int"
  m_levelCount :: "nat \<Rightarrow> int"
  m_statusCount :: "nat \<Rightarrow> int"

text \<open>
  \<^verbatim>\<open>xs[Math.floor(Math.random() * xs.length)]\<close>, for the computed index \<open>k\<close>. Since
  \<^verbatim>\<open>Math.random()\<close> is below 1, the index that the code computes is below the length of
  each of the three lists; the properties below that depend on the entry read assume it.
\<close>

definition pick :: "'a list \<Rightarrow> nat \<Rightarrow> 'a" where
  "pick xs k = xs ! k"

text \<open>
  \<open>getThreatScore\<close>; \<open>scaled base range\<close> is the value of
  \<^verbatim>\<open>base + Math.random() * range\<close> in the branch taken.
\<close>

fun getThreatScore :: "threat_level \<Rightarrow> (real \<Rightarrow> real \<Rightarrow> real) \<Rightarrow> real" where
  "getThreatScore HIGH scaled = scaled 80 20"
| "getThreatScore MEDIUM scaled = scaled 50 30"
| "getThreatScore LOW scaled = scaled 20 30"
| "getThreatScore SAFE scaled = scaled 0 20"
| "getThreatScore UNKNOWN scaled = scaled 0 100"

definition show_int :: "int \<Rightarrow> string" where
  "show_int i = (if i < 0 then ''-'' @ decimal (nat (- i)) else decimal (nat i))"

text \<open>
  One round of the loop, for the index \<open>i\<close>: \<open>None\<close> when the drawn values do not pass
  the filter (\<^verbatim>\<open>continue\<close>), otherwise the result that is pushed.
\<close>

definition mockResult :: "SearchParams \<Rightarrow> nat \<Rightarrow> result_draws \<Rightarrow> SearchResult option" where
  "mockResult params i d =
     (let filters = sp_filters params;
          domain = pick mockDomains (d_domainIndex d);
          threatLevel = pick threatLevels (d_threatLevelIndex d);
          status = pick statuses (d_statusIndex d);
          isOfficial = d_isOfficial d;
          passesFilter =
            ((fc_threatLevels filters = []
                \<or> threat_level_name threatLevel \<in> set (fc_threatLevels filters))
             \<and> (fc_domains filters = [] \<or> domain \<in> set (fc_domains filters))
             \<and> (fc_status filters = [] \<or> result_status_name status \<in> set (fc_status filters))
             \<and> (fc_isOfficial filters = None \<or> fc_isOfficial filters = Some isOfficial))
      in if \<not> passesFilter then None
         else Some
           \<lparr>sr_id = ''result-'' @ show_int (int i + (sp_page params - 1) * sp_limit params),
            sr_imageId = or_default (sp_imageId params)
                           (''img-'' @ show_int (d_imageIdNumber d)),
            sr_foundUrl = ''https://'' @ domain @ ''/page'' @ decimal (i + 1),
            sr_domain = domain,
            sr_title = ''Sample Content '' @ decimal (i + 1),
            sr_similarityScore = d_similarityScore d,
            sr_threatLevel = threatLevel,
            sr_threatScore = getThreatScore threatLevel (d_scaled d),
            sr_isOfficial = isOfficial,
            sr_status = status,
            sr_riskFactors = slice (d_sortedPool d) 0 (d_riskFactorCount d),
            sr_socialShares = d_socialShares d,
            sr_aiAnalysis =
              \<lparr>ai_contentAbuse = d_contentAbuse d,
               ai_copyrightRisk = d_copyrightRisk d,
               ai_commercialUse = d_commercialUse d,
               ai_unauthorizedRepost = d_unauthorizedRepost d\<rparr>\<rparr>)"

text \<open>
  \<open>generateMockSearchResults\<close>. The loop runs \<open>i\<close> over \<open>0, 1, ...\<close> below
  \<^verbatim>\<open>Math.min(params.limit, totalResults - (params.page - 1) * params.limit)\<close>. The function
  reads the parameters and the values computed from \<^verbatim>\<open>Math.random()\<close> and nothing else.
\<close>

definition generateMockSearchResults :: "SearchParams \<Rightarrow> mock_draws \<Rightarrow> SearchResultsResponse"
  where
  "generateMockSearchResults params m =
     (let totalResults = m_total m + 50;
          bound = min (sp_limit params) (totalResults - (sp_page params - 1) * sp_limit params)
      in \<lparr>srr_results =
            List.map_filter (\<lambda>i. mockResult params i (m_round m i)) [0..<nat bound],
          srr_total = totalResults,
          srr_page = sp_page params,
          srr_limit = sp_limit params,
          srr_hasMore = (sp_page params * sp_limit params < totalResults),
          srr_totalPages =
            (if sp_limit params = 0 then None
             else Some \<lceil>real_of_int totalResults / real_of_int (sp_limit params)\<rceil>),
          srr_facet_domains =
            map (\<lambda>(k, domain). (domain, m_domainCount m k + 1))
                (enumerate 0 mockDomains),
          srr_facet_threatLevels =
            map (\<lambda>(k, level). (threat_level_name level, m_levelCount m k + 1))
                (enumerate 0 threatLevels),
          srr_facet_statuses =
            map (\<lambda>(k, status). (result_status_name status, m_statusCount m k + 1))
                (enumerate 0 statuses)\<rparr>)"

text \<open>
  The query of \<open>searchImages\<close>, as the list of the pairs that it appends to its
  \<^verbatim>\<open>URLSearchParams\<close>, a value before its rendering by \<^verbatim>\<open>toString()\<close>.
\<close>

datatype query_value = QStr string | QNum real | QBool bool

definition search_query :: "SearchParams \<Rightarrow> (string \<times> query_value) list" where
  "search_query params =
     (let filters = sp_filters params
      in (if truthy (sp_imageId params) then [(''imageId'', QStr (the (sp_imageId params)))]
          else [])
         @ (if truthy (sp_query params) then [(''query'', QStr (the (sp_query params)))] else [])
         @ [(''page'', QNum (of_int (sp_page params))),
            (''limit'', QNum (of_int (sp_limit params))),
            (''sortBy'', QStr (fc_sortBy filters)),
            (''sortOrder'', QStr (sort_order_name (fc_sortOrder filters)))]
         @ map (\<lambda>level. (''threatLevels'', QStr level)) (fc_threatLevels filters)
         @ map (\<lambda>domain. (''domains'', QStr domain)) (fc_domains filters)
         @ map (\<lambda>status. (''status'', QStr status)) (fc_status filters)
         @ (if truthy (fc_startDate filters)
            then [(''startDate'', QStr (the (fc_startDate filters)))] else [])
         @ (if truthy (fc_endDate filters)
            then [(''endDate'', QStr (the (fc_endDate filters)))] else [])
         @ (if fc_similarityMin filters > 0
            then [(''minSimilarity'', QNum (fc_similarityMin filters))] else [])
         @ (if fc_similarityMax filters < 100
            then [(''maxSimilarity'', QNum (fc_similarityMax filters))] else [])
         @ (case fc_isOfficial filters of None \<Rightarrow> []
            | Some b \<Rightarrow> [(''isOfficial'', QBool b)])
         @ (case fc_hasRiskFactors filters of None \<Rightarrow> []
            | Some b \<Rightarrow> [(''hasRiskFactors'', QBool b)]))"

text \<open>
  \<^verbatim>\<open>console.error(label, error)\<close> appends an entry to the console. The back end is the
  function \<open>api\<close>: what \<^verbatim>\<open>api.get\<close> settles to for a path and a query (\<open>Inl\<close>: rejected).
  A service function returns what its promise settles to (\<open>Inl\<close>: rejected with this
  error) and the new console.
\<close>

datatype console_entry = ConsoleError string axios_error

definition searchImages ::
  "(string \<times> (string \<times> query_value) list \<Rightarrow> axios_error + SearchResultsResponse)
     \<Rightarrow> SearchParams \<Rightarrow> mock_draws \<Rightarrow> console_entry list
     \<Rightarrow> (js_error + SearchResultsResponse) \<times> console_entry list" where
  "searchImages api params m console =
     (case api (''/api/v1/search/results'', search_query params) of
        Inr response \<Rightarrow> (Inr response, console)
      | Inl error \<Rightarrow>
          (Inr (generateMockSearchResults params m),
           console @ [ConsoleError ''Search images error:'' error]))"

text \<open>
  \<open>getSearchResultDetails\<close>, a function of the same service that does not fall back.
\<close>

definition getSearchResultDetails ::
  "(string \<times> (string \<times> query_value) list \<Rightarrow> axios_error + SearchResult)
     \<Rightarrow> string \<Rightarrow> console_entry list \<Rightarrow> (js_error + SearchResult) \<times> console_entry list" where
  "getSearchResultDetails api resultId console =
     (case api (''/api/v1/search/results/'' @ resultId, []) of
        Inr response \<Rightarrow> (Inr response, console)
      | Inl error \<Rightarrow>
          (Inl (Error ''Failed to fetch the details of the search result''),
           console @ [ConsoleError ''Get search result details error:'' error]))"

text \<open>The domain and the threat level of a result.\<close>

definition domain_level :: "SearchResult \<Rightarrow> string \<times> threat_level" where
  "domain_level r = (sr_domain r, sr_threatLevel r)"

subsection \<open>The whitelist\<close>

datatype whitelist_category = Official | Partner | Trusted | Other

record WhitelistDomain =
  wl_id :: string
  wl_domain :: string
  wl_addedBy :: string
  wl_addedAt :: string
  wl_description :: "string option"
  wl_isActive :: bool
  wl_category :: whitelist_category
  wl_verifiedAt :: "string option"
  wl_verifiedBy :: "string option"

text \<open>
  The condition of the specification: the domain is present and active in the set of the
  whitelist entries.
\<close>

definition whitelisted :: "WhitelistDomain list \<Rightarrow> string \<Rightarrow> bool" where
  "whitelisted entries domain = list_ex (\<lambda>w. wl_domain w = domain \<and> wl_isActive w) entries"

subsection \<open>The analysis service\<close>

record ScoreComponent =
  sc_score :: real
  sc_weight :: real
  sc_factors :: "string list"

record ScoreBreakdown =
  sb_domainTrust :: ScoreComponent
  sb_contentSimilarity :: ScoreComponent
  sb_aiAnalysis :: ScoreComponent
  sb_contextualFactors :: ScoreComponent

record ManualEvaluation =
  me_evaluatedBy :: string
  me_overrideScore :: "real option"
  me_overrideThreatLevel :: "threat_level option"
  me_notes :: string
  me_confidence :: real

text \<open>
  An \<^verbatim>\<open>AnalysisReportData\<close>, with \<^verbatim>\<open>basicInfo\<close> flattened. The dates, the analyst, the
  titles, the \<^verbatim>\<open>aiAnalysis\<close> block, the risk factors, the recommendations and the comments
  are left out: no function of the service reads them.
\<close>

record AnalysisReportData =
  ar_id :: string
  ar_imageId :: string
  ar_detectedUrl :: string
  ar_domain :: string
  ar_similarityScore :: real
  ar_threatLevel :: threat_level
  ar_threatScore :: real
  ar_status :: result_status
  ar_isOfficial :: bool
  ar_scoreBreakdown :: ScoreBreakdown
  ar_manualEvaluation :: "ManualEvaluation option"

text \<open>
  What \<open>generateMockAnalysisData\<close> computes from \<^verbatim>\<open>Math.random()\<close>, one field for each
  expression that calls it and that the fields kept here read, holding the value of that
  expression: the three numbers \<^verbatim>\<open>Math.floor(Math.random() * 10000)\<close> and
  \<^verbatim>\<open>Math.floor(Math.random() * 1000)\<close> (twice) of the identifiers, the similarity
  \<^verbatim>\<open>75 + Math.random() * 20\<close>, the indices \<^verbatim>\<open>Math.floor(Math.random() * 5)\<close> and
  \<^verbatim>\<open>Math.floor(Math.random() * 3)\<close>, the scores \<^verbatim>\<open>Math.random() * 100\<close>, and the tests
  \<^verbatim>\<open>Math.random() < 0.2\<close> and \<^verbatim>\<open>Math.random() < 0.5\<close>.
\<close>

record analysis_draws =
  a_imageIdNumber :: int
  a_detectedUrlNumber :: int
  a_domainNumber :: int
  a_similarityScore :: real
  a_threatLevelIndex :: nat
  a_threatScore :: real
  a_statusIndex :: nat
  a_isOfficial :: bool
  a_domainTrust :: real
  a_contentSimilarity :: real
  a_aiAnalysis :: real
  a_contextualFactors :: real
  a_manualEvaluation :: bool

definition generateMockAnalysisData :: "string \<Rightarrow> analysis_draws \<Rightarrow> AnalysisReportData" where
  "generateMockAnalysisData analysisId a =
     \<lparr>ar_id = analysisId,
      ar_imageId = ''img-'' @ show_int (a_imageIdNumber a),
      ar_detectedUrl = ''https://example-'' @ show_int (a_detectedUrlNumber a)
                        @ ''.com/image.jpg'',
      ar_domain = ''example-'' @ show_int (a_domainNumber a) @ ''.com'',
      ar_similarityScore = a_similarityScore a,
      ar_threatLevel = pick threatLevels (a_threatLevelIndex a),
      ar_threatScore = a_threatScore a,
      ar_status = pick statuses (a_statusIndex a),
      ar_isOfficial = a_isOfficial a,
      ar_scoreBreakdown =
        \<lparr>sb_domainTrust =
           \<lparr>sc_score = a_domainTrust a, sc_weight = 0.4,
            sc_factors = [''domain age'', ''SSL certificate'', ''DNS settings'', ''reputation'']\<rparr>,
         sb_contentSimilarity =
           \<lparr>sc_score = a_contentSimilarity a, sc_weight = 0.3,
            sc_factors = [''image hash comparison'', ''feature analysis'',
                          ''metadata comparison'']\<rparr>,
         sb_aiAnalysis =
           \<lparr>sc_score = a_aiAnalysis a, sc_weight = 0.2,
            sc_factors = [''content analysis'', ''copyright judgement'', ''abuse detection'']\<rparr>,
         sb_contextualFactors =
           \<lparr>sc_score = a_contextualFactors a, sc_weight = 0.1,
            sc_factors = [''posting time'', ''social signals'', ''related content'']\<rparr>\<rparr>,
      ar_manualEvaluation =
        (if a_manualEvaluation a
         then Some \<lparr>me_evaluatedBy = ''Evaluator Hanako'', me_overrideScore = Some 85,
                    me_overrideThreatLevel = Some HIGH,
                    me_notes = ''Judged high risk after manual review. Prompt action is needed.'',
                    me_confidence = 95\<rparr>
         else None)\<rparr>"

definition getAnalysisDetail ::
  "(string \<times> (string \<times> query_value) list \<Rightarrow> axios_error + AnalysisReportData)
     \<Rightarrow> string \<Rightarrow> analysis_draws \<Rightarrow> console_entry list
     \<Rightarrow> (js_error + AnalysisReportData) \<times> console_entry list" where
  "getAnalysisDetail api analysisId a console =
     (case api (''/api/v1/analysis/'' @ analysisId, []) of
        Inr response \<Rightarrow> (Inr response, console)
      | Inl error \<Rightarrow>
          (Inr (generateMockAnalysisData analysisId a),
           console @ [ConsoleError ''Get analysis detail error:'' error]))"

text \<open>The four weights of a score breakdown, and their sum.\<close>

definition weights :: "ScoreBreakdown \<Rightarrow> real list" where
  "weights b =
     [sc_weight (sb_domainTrust b), sc_weight (sb_contentSimilarity b),
      sc_weight (sb_aiAnalysis b), sc_weight (sb_contextualFactors b)]"

definition weight_sum :: "ScoreBreakdown \<Rightarrow> real" where
  "weight_sum b = sum_list (weights b)"

subsection \<open>Example inputs\<close>

definition example_png :: File where
  "example_png = \<lparr>file_name = ''photo.png'', file_size = 2097152, file_type = ''image/png''\<rparr>"

definition example_bmp :: File where
  "example_bmp = \<lparr>file_name = ''scan.bmp'', file_size = 4096, file_type = ''image/bmp''\<rparr>"

definition example_big :: File where
  "example_big = \<lparr>file_name = ''big.png'', file_size = 52428800, file_type = ''image/png''\<rparr>"

definition example_response :: ImageUploadResponse where
  "example_response =
     \<lparr>response_id = ''7f3a'', response_filename = ''7f3a.png'',
      response_originalName = ''photo.png'', response_size = 2097152,
      response_mimeType = ''image/png'', response_uploadPath = ''/uploads/7f3a.png'',
      response_thumbnailPath = None, response_status = ImagePending,
      response_createdAt = ''2024-01-01T00:00:00Z''\<rparr>"

definition example_filters :: FilterConfig where
  "example_filters =
     \<lparr>fc_threatLevels = [], fc_domains = [], fc_startDate = None, fc_endDate = None,
      fc_similarityMin = 0, fc_similarityMax = 100, fc_status = [], fc_isOfficial = None,
      fc_hasRiskFactors = None, fc_sortBy = ''detectedAt'', fc_sortOrder = Desc\<rparr>"

definition example_params :: SearchParams where
  "example_params =
     \<lparr>sp_imageId = Some ''img-42'', sp_query = None, sp_filters = example_filters,
      sp_page = 1, sp_limit = 1\<rparr>"

definition example_round :: result_draws where
  "example_round =
     \<lparr>d_domainIndex = 0, d_threatLevelIndex = 3, d_statusIndex = 0, d_isOfficial = False,
      d_similarityScore = 90, d_scaled = (\<lambda>base range. base + range / 2),
      d_riskFactorCount = 0, d_sortedPool = [], d_imageIdNumber = 0, d_socialShares = 0,
      d_contentAbuse = 50, d_copyrightRisk = 50, d_commercialUse = False,
      d_unauthorizedRepost = False\<rparr>"

definition example_draws :: mock_draws where
  "example_draws =
     \<lparr>m_total = 0, m_round = (\<lambda>i. example_round), m_domainCount = (\<lambda>k. 0),
      m_levelCount = (\<lambda>k. 0), m_statusCount = (\<lambda>k. 0)\<rparr>"

definition example_whitelist :: "WhitelistDomain list" where
  "example_whitelist =
     [\<lparr>wl_id = ''domain-1'', wl_domain = ''example.com'', wl_addedBy = ''administrator'',
       wl_addedAt = ''2024-01-01T00:00:00Z'', wl_description = Some ''official site'',
       wl_isActive = True, wl_category = Official, wl_verifiedAt = None,
       wl_verifiedBy = None\<rparr>]"

definition failing_api :: "string \<times> (string \<times> query_value) list \<Rightarrow> axios_error + 'a" where
  "failing_api request = Inl NoResponse"

definition answering_api :: "'a \<Rightarrow> string \<times> (string \<times> query_value) list \<Rightarrow> axios_error + 'a"
  where
  "answering_api response request = Inr response"

definition example_analysis_draws :: analysis_draws where
  "example_analysis_draws =
     \<lparr>a_imageIdNumber = 0, a_detectedUrlNumber = 0, a_domainNumber = 0,
      a_similarityScore = 85, a_threatLevelIndex = 3, a_threatScore = 50, a_statusIndex = 0,
      a_isOfficial = False, a_domainTrust = 50, a_contentSimilarity = 50, a_aiAnalysis = 50,
      a_contextualFactors = 50, a_manualEvaluation = False\<rparr>"

definition example_breakdown :: ScoreBreakdown where
  "example_breakdown =
     \<lparr>sb_domainTrust = \<lparr>sc_score = 50, sc_weight = 0.5, sc_factors = []\<rparr>,
      sb_contentSimilarity = \<lparr>sc_score = 50, sc_weight = 0.5, sc_factors = []\<rparr>,
      sb_aiAnalysis = \<lparr>sc_score = 50, sc_weight = 0.5, sc_factors = []\<rparr>,
      sb_contextualFactors = \<lparr>sc_score = 50, sc_weight = 0.5, sc_factors = []\<rparr>\<rparr>"

definition example_report :: AnalysisReportData where
  "example_report =
     \<lparr>ar_id = ''a1'', ar_imageId = ''img-42'',
      ar_detectedUrl = ''https://example.com/image.jpg'', ar_domain = ''example.com'',
      ar_similarityScore = 90, ar_threatLevel = HIGH, ar_threatScore = 90,
      ar_status = ACTIVE, ar_isOfficial = False, ar_scoreBreakdown = example_breakdown,
      ar_manualEvaluation = None\<rparr>"

section \<open>Properties\<close>

subsection \<open>slice\<close>

lemma slice_nonneg:
  assumes "0 \<le> i" "0 \<le> n"
  shows "slice xs i (i + n) = take (nat n) (drop (nat i) xs)"
proof (cases "i \<le> int (length xs)")
  case True
  then show ?thesis
    using assms by (cases "i + n \<le> int (length xs)") (simp_all add: slice_def min_def)
next
  case False
  then show ?thesis using assms by (simp add: slice_def min_def)
qed

lemma slice_prefix: "slice xs 0 (int n) = take n xs"
  using slice_nonneg [of 0 "int n" xs] by simp

lemma slice_from_suffix:
  "0 < n \<Longrightarrow> n \<le> length xs \<Longrightarrow> slice_from xs (- int n) = drop (length xs - n) xs"
  by (simp add: slice_from_def slice_def nat_diff_distrib)

lemma repeat_single: "repeat [c] n = replicate n c"
  by (induction n) (simp_all add: repeat_def)

subsection \<open>chunk\<close>

lemma chunk_loop_spec:
  assumes "1 \<le> sz" "0 \<le> i"
  shows "\<exists>cs. chunk_loop a sz i acc = Some (acc @ cs) \<and> concat cs = drop (nat i) a
          \<and> (\<forall>k. Suc k < length cs \<longrightarrow> int (length (cs ! k)) = sz)
          \<and> (\<forall>c \<in> set cs. c \<noteq> [] \<and> int (length c) \<le> sz)"
  using assms
proof (induction "nat (int (length a) - i)" arbitrary: i acc rule: less_induct)
  case less
  show ?case
  proof (cases "i < int (length a)")
    case False
    then show ?thesis using less.prems by (subst chunk_loop.simps) simp
  next
    case True
    let ?c = "slice a i (i + sz)"
    have c: "?c = take (nat sz) (drop (nat i) a)"
      using less.prems by (simp add: slice_nonneg)
    have "nat (int (length a) - (i + sz)) < nat (int (length a) - i)"
      using True less.prems by linarith
    from less.hyps [OF this, of "acc @ [?c]"] less.prems
    obtain cs where cs: "chunk_loop a sz (i + sz) (acc @ [?c]) = Some ((acc @ [?c]) @ cs)"
      "concat cs = drop (nat (i + sz)) a"
      "\<forall>k. Suc k < length cs \<longrightarrow> int (length (cs ! k)) = sz"
      "\<forall>c \<in> set cs. c \<noteq> [] \<and> int (length c) \<le> sz"
      by auto
    have run: "chunk_loop a sz i acc = Some (acc @ (?c # cs))"
      using True cs(1) by (subst chunk_loop.simps) simp
    have cat: "concat (?c # cs) = drop (nat i) a"
    proof -
      have "drop (nat (i + sz)) a = drop (nat sz) (drop (nat i) a)"
        using less.prems by (simp add: nat_add_distrib add.commute)
      then have "take (nat sz) (drop (nat i) a) @ concat cs = drop (nat i) a"
        using cs(2) by (simp only: append_take_drop_id)
      then show ?thesis using c by simp
    qed
    have len: "\<forall>k. Suc k < length (?c # cs) \<longrightarrow> int (length ((?c # cs) ! k)) = sz"
    proof (intro allI impI)
      fix k assume k: "Suc k < length (?c # cs)"
      show "int (length ((?c # cs) ! k)) = sz"
      proof (cases k)
        case 0
        then have "cs \<noteq> []" using k by auto
        then obtain d where "d \<in> set cs" by (cases cs) auto
        then have "d \<noteq> []" "set d \<subseteq> set (concat cs)" using cs(4) by auto
        then have "drop (nat (i + sz)) a \<noteq> []" using cs(2) by auto
        then have "nat (i + sz) < length a" by simp
        then have "nat sz \<le> length (drop (nat i) a)" using less.prems by simp
        then show ?thesis using 0 c less.prems by simp
      next
        case (Suc j)
        then show ?thesis using k cs(3) by simp
      qed
    qed
    have ne: "\<forall>c \<in> set (?c # cs). c \<noteq> [] \<and> int (length c) \<le> sz"
      using cs(4) c True less.prems by auto
    show ?thesis using run cat len ne by blast
  qed
qed

text \<open>
  Claim C8. For every array \<open>a\<close> and every integer \<open>size \<ge> 1\<close>, \<open>chunk(a, size)\<close> returns
  (the loop terminates), the concatenation of the returned sublists in order is \<open>a\<close>, and
  every returned sublist other than the last has exactly \<open>size\<close> elements.
\<close>

theorem chunk_partition:
  assumes "1 \<le> sz"
  shows "\<exists>cs. chunk a sz = Some cs \<and> concat cs = a
          \<and> (\<forall>k. Suc k < length cs \<longrightarrow> int (length (cs ! k)) = sz)"
  using chunk_loop_spec [OF assms, of 0 a "[]"] by (auto simp: chunk_def)

theorem chunk_partition_witness:
  "(1::int) \<le> 2 \<and> chunk [1, 2, 3, 4, 5 :: nat] 2 = Some [[1, 2], [3, 4], [5]]
   \<and> concat [[1, 2], [3, 4], [5 :: nat]] = [1, 2, 3, 4, 5]
   \<and> length ([[1, 2], [3, 4], [5 :: nat]] ! 0) = 2 \<and> length ([[1, 2], [3, 4], [5 :: nat]] ! 1) = 2"
proof -
  have h: "(1::int) \<le> 2" by simp
  have e: "chunk [1, 2, 3, 4, 5 :: nat] 2 = Some [[1, 2], [3, 4], [5]]" by code_simp
  from chunk_partition [OF h, of "[1, 2, 3, 4, 5 :: nat]"] e show ?thesis by simp
qed

subsection \<open>maskAPIKey\<close>

lemma maskAPIKey_short:
  "length key \<le> 8 \<Longrightarrow> maskAPIKey key = replicate (length key) bullet"
  by (simp add: maskAPIKey_def repeat_single)

lemma maskAPIKey_long:
  "8 < length key \<Longrightarrow>
   maskAPIKey key = take 4 key @ replicate (length key - 8) bullet @ drop (length key - 4) key"
  using slice_prefix [of key 4] slice_from_suffix [of 4 key]
  by (auto simp: maskAPIKey_def repeat_single)

text \<open>
  Claim C10. For every key, \<open>maskAPIKey\<close> returns a string of the length of the key. When
  the key has at most 8 code units every character of the result is the mask character;
  otherwise the first 4 and the last 4 characters are those of the key and every character
  between them is the mask character.
\<close>

theorem maskAPIKey_shape:
  "length (maskAPIKey key) = length key
   \<and> (length key \<le> 8 \<longrightarrow> (\<forall>i < length key. maskAPIKey key ! i = bullet))
   \<and> (8 < length key \<longrightarrow>
        (\<forall>i < 4. maskAPIKey key ! i = key ! i)
        \<and> (\<forall>i. 4 \<le> i \<and> i < length key - 4 \<longrightarrow> maskAPIKey key ! i = bullet)
        \<and> (\<forall>i. length key - 4 \<le> i \<and> i < length key \<longrightarrow> maskAPIKey key ! i = key ! i))"
proof (cases "length key \<le> 8")
  case True
  then show ?thesis by (simp add: maskAPIKey_short)
next
  case False
  then have long: "8 < length key" by simp
  have m: "maskAPIKey key
           = take 4 key @ replicate (length key - 8) bullet @ drop (length key - 4) key"
    using long by (rule maskAPIKey_long)
  have len: "length (maskAPIKey key) = length key"
    using long by (simp add: m)
  have pre: "\<forall>i < 4. maskAPIKey key ! i = key ! i"
    using long by (simp add: m nth_append)
  have mid: "\<forall>i. 4 \<le> i \<and> i < length key - 4 \<longrightarrow> maskAPIKey key ! i = bullet"
  proof (intro allI impI)
    fix i assume i: "4 \<le> i \<and> i < length key - 4"
    then have "i - 4 < length key - 8" using long by linarith
    then show "maskAPIKey key ! i = bullet"
      using i long by (simp add: m nth_append)
  qed
  have suf: "\<forall>i. length key - 4 \<le> i \<and> i < length key \<longrightarrow> maskAPIKey key ! i = key ! i"
  proof (intro allI impI)
    fix i assume i: "length key - 4 \<le> i \<and> i < length key"
    then have a: "\<not> i < 4" "\<not> i - 4 < length key - 8" using long by linarith+
    have b: "length key - 4 + (i - 4 - (length key - 8)) = i"
      using i long by linarith
    show "maskAPIKey key ! i = key ! i"
      using i long a b by (simp add: m nth_append)
  qed
  show ?thesis using len pre mid suf long by simp
qed

theorem maskAPIKey_shape_witness:
  "maskAPIKey [0x73, 0x6B, 0x2D, 0x61, 0x62, 0x63, 0x64, 0x65, 0x66, 0x67]
     = [0x73, 0x6B, 0x2D, 0x61, bullet, bullet, 0x64, 0x65, 0x66, 0x67]
   \<and> maskAPIKey [0x73, 0x6B, 0x2D] = [bullet, bullet, bullet]"
proof -
  have a: "maskAPIKey [0x73, 0x6B, 0x2D, 0x61, 0x62, 0x63, 0x64, 0x65, 0x66, 0x67]
             = [0x73, 0x6B, 0x2D, 0x61, bullet, bullet, 0x64, 0x65, 0x66, 0x67]"
    by (simp add: maskAPIKey_def repeat_def slice_def slice_from_def)
  have b: "maskAPIKey [0x73, 0x6B, 0x2D] = [bullet, bullet, bullet]"
    by (simp add: maskAPIKey_def repeat_def)
  from maskAPIKey_shape [of "[0x73, 0x6B, 0x2D, 0x61, 0x62, 0x63, 0x64, 0x65, 0x66, 0x67]"]
    maskAPIKey_shape [of "[0x73, 0x6B, 0x2D]"] a b
  show ?thesis by simp
qed

subsection \<open>validateThresholds\<close>

lemma validateThresholds_empty_iff:
  "validateThresholds t = [] \<longleftrightarrow>
     threatScore_safe t < threatScore_low t \<and> threatScore_low t < threatScore_medium t
     \<and> threatScore_medium t < threatScore_high t
     \<and> (\<forall>score \<in> set (allScores t). 0 \<le> score \<and> score \<le> 100)"
  by (auto simp: validateThresholds_def Let_def list_ex_iff not_less not_le)

text \<open>
  The characterisation above and the lemma below are about scores that are numbers. On
  \<^verbatim>\<open>NaN\<close>, which \<open>real\<close> does not have, every comparison of the code is false, so that
  the code returns the empty list also for settings whose scores are \<^verbatim>\<open>NaN\<close>; for such
  settings neither the order nor the range holds.
\<close>

lemma validateThresholds_monotonic:
  "validateThresholds t = [] \<Longrightarrow>
     threatScore_safe t < threatScore_low t \<and> threatScore_low t < threatScore_medium t
     \<and> threatScore_medium t < threatScore_high t"
  by (simp add: validateThresholds_empty_iff)

text \<open>
  Claim C5. \<open>validateThresholds\<close> returns the empty list exactly when
  \<open>safe < low < medium < high\<close> and every configured threshold value lies in \<open>[0,100]\<close>.
  The range check reads only the ten values of \<open>allScores\<close>: the three thresholds of the
  \<open>aiAnalysis\<close> group are not among them, and the default settings with
  \<open>aiAnalysis.contentAbuse = 150\<close> pass the validation.
\<close>

theorem validateThresholds_skips_aiAnalysis:
  "validateThresholds (defaultThresholds\<lparr>aiAnalysis_contentAbuse := 150\<rparr>) = []
   \<and> threatScore_safe (defaultThresholds\<lparr>aiAnalysis_contentAbuse := 150\<rparr>)
       < threatScore_low (defaultThresholds\<lparr>aiAnalysis_contentAbuse := 150\<rparr>)
   \<and> threatScore_low (defaultThresholds\<lparr>aiAnalysis_contentAbuse := 150\<rparr>)
       < threatScore_medium (defaultThresholds\<lparr>aiAnalysis_contentAbuse := 150\<rparr>)
   \<and> threatScore_medium (defaultThresholds\<lparr>aiAnalysis_contentAbuse := 150\<rparr>)
       < threatScore_high (defaultThresholds\<lparr>aiAnalysis_contentAbuse := 150\<rparr>)
   \<and> list_ex (\<lambda>score. score < 0 \<or> score > 100)
        (configuredThresholds (defaultThresholds\<lparr>aiAnalysis_contentAbuse := 150\<rparr>))"
  by (simp add: validateThresholds_def defaultThresholds_def allScores_def
      configuredThresholds_def)

subsection \<open>validateImageFile and uploadImage\<close>

lemma decimal_nonempty: "decimal n \<noteq> []"
  by (subst decimal.simps) simp

lemma validateImageFile_truthy: "truthy (validateImageFile file) \<longleftrightarrow> validateImageFile file \<noteq> None"
  by (simp add: validateImageFile_def truthy_def)

lemma validateImageFile_None_iff:
  "validateImageFile file = None \<longleftrightarrow>
     file_size file \<le> maxFileSize \<and> file_type file \<in> set allowedTypes"
  by (simp add: validateImageFile_def not_less)

text \<open>
  Claim C3. \<open>validateImageFile\<close> accepts a file (returns \<^verbatim>\<open>null\<close>) exactly when its size is
  at most \<open>10 * 1024 * 1024\<close> bytes and its MIME type is one of image/jpeg, image/png,
  image/gif and image/webp; and for a file that it rejects, \<open>uploadImage\<close> throws without
  issuing an upload request, whatever the network would answer.
\<close>

theorem validateImageFile_gate:
  "(validateImageFile file = None \<longleftrightarrow>
      file_size file \<le> 10 * 1024 * 1024
      \<and> file_type file \<in> {''image/jpeg'', ''image/png'', ''image/gif'', ''image/webp''})
   \<and> (validateImageFile file \<noteq> None \<longrightarrow>
        (\<exists>msg. uploadImage post file reqs = (Inl (Error msg), reqs)))"
proof -
  have a: "validateImageFile file = None \<longleftrightarrow>
      file_size file \<le> 10 * 1024 * 1024
      \<and> file_type file \<in> {''image/jpeg'', ''image/png'', ''image/gif'', ''image/webp''}"
    by (simp add: validateImageFile_None_iff maxFileSize_def allowedTypes_def)
  have b: "validateImageFile file \<noteq> None \<longrightarrow>
        (\<exists>msg. uploadImage post file reqs = (Inl (Error msg), reqs))"
    by (simp add: uploadImage_def uploadImage_request_def Let_def validateImageFile_truthy)
  show ?thesis using a b by blast
qed

theorem validateImageFile_gate_witness:
  "validateImageFile \<lparr>file_name = ''big.png'', file_size = 52428800, file_type = ''image/png''\<rparr>
     \<noteq> None
   \<and> (\<exists>msg. uploadImage (\<lambda>f. Inl NoResponse)
         \<lparr>file_name = ''big.png'', file_size = 52428800, file_type = ''image/png''\<rparr> []
       = (Inl (Error msg), []))
   \<and> validateImageFile \<lparr>file_name = ''ok.png'', file_size = 2097152, file_type = ''image/png''\<rparr>
     = None"
proof -
  have big: "validateImageFile
      \<lparr>file_name = ''big.png'', file_size = 52428800, file_type = ''image/png''\<rparr> \<noteq> None"
    by (simp add: validateImageFile_def maxFileSize_def)
  from validateImageFile_gate
    [of "\<lparr>file_name = ''big.png'', file_size = 52428800, file_type = ''image/png''\<rparr>"
        "\<lambda>f. Inl NoResponse" "[]"]
    validateImageFile_gate
    [of "\<lparr>file_name = ''ok.png'', file_size = 2097152, file_type = ''image/png''\<rparr>"
        "\<lambda>f. Inl NoResponse" "[]"]
    big
  show ?thesis by simp
qed


subsection \<open>The steps of the uploader, field by field\<close>

lemma files_fold_start_upload:
  "files (fold start_upload ps s)
     = map (\<lambda>f. if imf_id f \<in> imf_id ` set ps then f\<lparr>imf_status := Uploading\<rparr> else f) (files s)"
proof (induction ps arbitrary: s)
  case Nil
  show ?case by simp
next
  case (Cons p ps)
  show ?case
    by (simp add: Cons.IH) (auto simp: start_upload_def update_by_id_def)
qed

lemma inflight_fold_start_upload: "inflight (fold start_upload ps s) = inflight s @ ps"
  by (induction ps arbitrary: s) (simp_all add: start_upload_def)

lemma uploadCalls_fold_start_upload:
  "uploadCalls (fold start_upload ps s) = uploadCalls s @ map imf_file ps"
  by (induction ps arbitrary: s) (simp_all add: start_upload_def)

lemma isUploading_fold_start_upload: "isUploading (fold start_upload ps s) = isUploading s"
  by (induction ps arbitrary: s) (simp_all add: start_upload_def)

lemma toasts_fold_start_upload: "toasts (fold start_upload ps s) = toasts s"
  by (induction ps arbitrary: s) (simp_all add: start_upload_def)

lemma files_onDrop:
  "files (onDrop maxFiles acc rej s) = take maxFiles (files s @ newImageFiles acc)"
  by (simp add: onDrop_def Let_def slice_prefix)

lemma newImageFile_status:
  "imf_status (newImageFile now file index)
     = (if validateImageFile file = None then Pending else Failed)"
  by (simp add: newImageFile_def Let_def validateImageFile_truthy)

lemma newImageFile_file: "imf_file (newImageFile now file index) = file"
  by (simp add: newImageFile_def Let_def)

lemma newImageFile_id: "imf_id (newImageFile now file index) = (now, index)"
  by (simp add: newImageFile_def Let_def)

lemma in_newImageFiles:
  "f \<in> set (newImageFiles acc) \<Longrightarrow> \<exists>now file index. f = newImageFile now file index"
  by (auto simp: newImageFiles_def)

lemma run_snoc: "run maxFiles (evs @ [e]) = step maxFiles (run maxFiles evs) e"
  by (simp add: run_def)

lemma run_Nil: "run maxFiles [] = initial"
  by (simp add: run_def)

subsection \<open>Only validated files are pending\<close>

lemma pending_valid_update:
  assumes "pending_valid s" "\<And>f. imf_status (upd f) \<noteq> Pending" 
  shows "\<forall>f \<in> set (update_by_id i upd (files s)).
           imf_status f = Pending \<longrightarrow> validateImageFile (imf_file f) = None"
  using assms by (auto simp: pending_valid_def update_by_id_def)

lemma pending_valid_step:
  assumes "pending_valid s"
  shows "pending_valid (step maxFiles s e)"
proof (cases e)
  case (Drop acc rej)
  have "\<forall>f \<in> set (files s @ newImageFiles acc).
          imf_status f = Pending \<longrightarrow> validateImageFile (imf_file f) = None"
    using assms
    by (auto simp: pending_valid_def newImageFile_status newImageFile_file
        dest!: in_newImageFiles split: if_splits)
  then have "\<forall>f \<in> set (take maxFiles (files s @ newImageFiles acc)).
          imf_status f = Pending \<longrightarrow> validateImageFile (imf_file f) = None"
    by (meson in_set_takeD)
  moreover have "uploadCalls (onDrop maxFiles acc rej s) = uploadCalls s"
    by (simp add: onDrop_def Let_def)
  ultimately show ?thesis
    using assms Drop by (simp add: pending_valid_def files_onDrop)
next
  case (RemoveFile i)
  then show ?thesis using assms by (auto simp: pending_valid_def removeFile_def)
next
  case ClearAllFiles
  then show ?thesis using assms by (auto simp: pending_valid_def clearAllFiles_def)
next
  case UploadFiles
  then show ?thesis
    using assms
    by (auto simp: pending_valid_def uploadFiles_def Let_def files_fold_start_upload
        uploadCalls_fold_start_upload)
next
  case (UploadProgress k pct)
  then show ?thesis
    using assms by (auto simp: pending_valid_def upload_progress_def update_by_id_def)
next
  case (UploadSettled k answer)
  then show ?thesis
    using assms
    by (auto simp: pending_valid_def settle_upload_def Let_def finish_batch_def
        update_by_id_def split: sum.splits)
qed

lemma pending_valid_run: "pending_valid (run maxFiles evs)"
proof (induction evs rule: rev_induct)
  case Nil
  show ?case by (simp add: run_Nil pending_valid_def initial_def)
next
  case (snoc e evs)
  then show ?case by (simp add: run_snoc pending_valid_step)
qed

subsection \<open>Ids stay distinct\<close>


lemma assigned_ids_append: "assigned_ids (evs @ evs') = assigned_ids evs @ assigned_ids evs'"
  by (induction evs rule: assigned_ids.induct) simp_all

lemma id_status_update_set:
  assumes "\<And>f. imf_id (upd f) = imf_id f" "\<And>f. imf_status (upd f) = st"
  shows "map id_status (update_by_id i upd fs)
           = map (\<lambda>p. if fst p = i then (i, st) else p) (map id_status fs)"
  using assms by (simp add: update_by_id_def id_status_def)

lemma id_status_update_keep:
  assumes "\<And>f. imf_id (upd f) = imf_id f" "\<And>f. imf_status (upd f) = imf_status f"
  shows "map id_status (update_by_id i upd fs) = map id_status fs"
  using assms by (simp add: update_by_id_def id_status_def)

lemma fst_set_status: "map fst (map (\<lambda>p. if fst p = i then (i, st) else p) ps) = map fst ps"
  by (induction ps) auto

lemma distinct_nth_rest:
  assumes "distinct (map g xs)" "k < length xs" "h \<in> set (take k xs @ drop (Suc k) xs)"
  shows "g h \<noteq> g (xs ! k)"
proof -
  have "xs = take k xs @ xs ! k # drop (Suc k) xs"
    using assms(2) by (rule id_take_nth_drop)
  then have "distinct (map g (take k xs @ xs ! k # drop (Suc k) xs))"
    using assms(1) by simp
  then have "g (xs ! k) \<notin> g ` set (take k xs)" "g (xs ! k) \<notin> g ` set (drop (Suc k) xs)"
    by simp_all
  then show ?thesis using assms(3) by (metis Un_iff imageI set_append)
qed

lemma distinct_rest:
  assumes "distinct (map g xs)" "k < length xs"
  shows "distinct (map g (take k xs @ drop (Suc k) xs))"
proof -
  have "xs = take k xs @ xs ! k # drop (Suc k) xs"
    using assms(2) by (rule id_take_nth_drop)
  then have "distinct (map g (take k xs @ xs ! k # drop (Suc k) xs))"
    using assms(1) by simp
  then show ?thesis by simp
qed

lemma fst_id_status: "map fst (map id_status fs) = map imf_id fs"
  by (simp add: id_status_def)

lemma ids_ok_mono: "ids_ok seen s \<Longrightarrow> seen \<subseteq> seen' \<Longrightarrow> ids_ok seen' s"
  unfolding ids_ok_def by blast

lemma ids_ok_onDrop:
  assumes ok: "ids_ok seen s" and idle: "\<not> isUploading s"
    and fr: "fresh seen (Drop acc rej)"
  shows "ids_ok (seen \<union> set (assigned_ids [Drop acc rej])) (onDrop maxFiles acc rej s)"
proof -
  let ?new = "newImageFiles acc"
  have none: "inflight s = []" using ok idle by (auto simp: ids_ok_def)
  have old: "distinct (map imf_id (files s))" "set (map imf_id (files s)) \<subseteq> seen"
    using ok by (simp_all add: ids_ok_def)
  have new: "distinct (map imf_id ?new)" "set (map imf_id ?new) \<inter> seen = {}"
    using fr by (simp_all add: fresh_def)
  have d: "distinct (map imf_id (files s @ ?new))"
    using old new by (simp only: map_append distinct_append) blast
  have a: "distinct (map imf_id (take maxFiles (files s @ ?new)))"
    using d by (simp only: take_map [symmetric] distinct_take)
  have "set (take maxFiles (files s @ ?new)) \<subseteq> set (files s) \<union> set ?new"
    using set_take_subset [of maxFiles "files s @ ?new"] by simp
  then have "imf_id ` set (take maxFiles (files s @ ?new)) \<subseteq> imf_id ` (set (files s) \<union> set ?new)"
    by (rule image_mono)
  then have b: "set (map imf_id (take maxFiles (files s @ ?new))) \<subseteq> seen \<union> set (map imf_id ?new)"
    using old(2) unfolding set_map image_Un by blast
  have c: "inflight (onDrop maxFiles acc rej s) = []"
    using none by (simp add: onDrop_def Let_def)
  show ?thesis using a b c by (simp add: ids_ok_def files_onDrop)
qed

lemma ids_ok_uploadFiles:
  assumes ok: "ids_ok seen s" and idle: "\<not> isUploading s"
    and some: "filter (\<lambda>f. imf_status f = Pending) (files s) \<noteq> []"
  shows "ids_ok seen (uploadFiles s)"
proof -
  let ?ps = "filter (\<lambda>f. imf_status f = Pending) (files s)"
  let ?s' = "fold start_upload ?ps (s\<lparr>isUploading := True\<rparr>)"
  have none: "inflight s = []" using ok idle by (auto simp: ids_ok_def)
  have u: "uploadFiles s = ?s'" using some by (simp add: uploadFiles_def Let_def)
  have ids: "map imf_id (files ?s') = map imf_id (files s)"
    by (simp add: files_fold_start_upload)
  have fl: "inflight ?s' = ?ps" using none by (simp add: inflight_fold_start_upload)
  have a: "distinct (map imf_id (files ?s'))" "set (map imf_id (files ?s')) \<subseteq> seen"
    using ok unfolding ids ids_ok_def by blast+
  have c: "distinct (map imf_id (inflight ?s'))"
    using ok by (simp add: fl ids_ok_def distinct_map_filter)
  have d: "\<forall>g \<in> set (inflight ?s'). \<forall>p \<in> set (map id_status (files ?s')).
             fst p = imf_id g \<longrightarrow> snd p = Uploading"
    by (auto simp: fl files_fold_start_upload id_status_def)
  have e: "isUploading ?s'" by (simp add: isUploading_fold_start_upload)
  show ?thesis unfolding u ids_ok_def using a c d e by blast
qed

lemma settle_upload_fields:
  assumes "k < length (inflight s)"
  obtains upd st where
    "files (settle_upload k answer s) = update_by_id (imf_id (inflight s ! k)) upd (files s)"
    "\<And>f. imf_id (upd f) = imf_id f"
    "\<And>f. imf_status (upd f) = st"
    "inflight (settle_upload k answer s) = take k (inflight s) @ drop (Suc k) (inflight s)"
    "take k (inflight s) @ drop (Suc k) (inflight s) \<noteq> [] \<Longrightarrow>
       isUploading (settle_upload k answer s) = isUploading s"
proof (cases "fst (uploadImage (\<lambda>_. answer) (imf_file (inflight s ! k)) [])")
  case (Inl err)
  show ?thesis
  proof (rule that [of "\<lambda>f. f\<lparr>imf_status := Failed,
                 imf_error := Some \<lparr>error_code = ''upload'', error_text = error_message err\<rparr>,
                 imf_progress := 0\<rparr>" Failed])
    show "isUploading (settle_upload k answer s) = isUploading s"
      if "take k (inflight s) @ drop (Suc k) (inflight s) \<noteq> []"
      using assms Inl that by (auto simp: settle_upload_def Let_def)
  qed (use assms Inl in \<open>simp_all add: settle_upload_def Let_def finish_batch_def\<close>)
next
  case (Inr response)
  show ?thesis
  proof (rule that [of "\<lambda>f. f\<lparr>imf_status := Completed, imf_response := Some response,
                 imf_progress := 100\<rparr>" Completed])
    show "isUploading (settle_upload k answer s) = isUploading s"
      if "take k (inflight s) @ drop (Suc k) (inflight s) \<noteq> []"
      using assms Inr that by (auto simp: settle_upload_def Let_def)
  qed (use assms Inr in \<open>simp_all add: settle_upload_def Let_def finish_batch_def\<close>)
qed

lemma ids_ok_settle:
  assumes ok: "ids_ok seen s"
  shows "ids_ok seen (settle_upload k answer s)"
proof (cases "k < length (inflight s)")
  case False
  then show ?thesis using ok by (simp add: settle_upload_def)
next
  case True
  let ?g = "inflight s ! k"
  let ?rest = "take k (inflight s) @ drop (Suc k) (inflight s)"
  let ?s' = "settle_upload k answer s"
  from settle_upload_fields [OF True, of answer]
  obtain upd st where f: "files ?s' = update_by_id (imf_id ?g) upd (files s)"
    and upd: "\<And>f. imf_id (upd f) = imf_id f" "\<And>f. imf_status (upd f) = st"
    and fl: "inflight ?s' = ?rest"
    and up: "?rest \<noteq> [] \<Longrightarrow> isUploading ?s' = isUploading s"
    by blast
  have ids: "map imf_id (files ?s') = map imf_id (files s)"
    unfolding f using upd(1) by (simp add: update_by_id_def)
  have ist: "map id_status (files ?s')
       = map (\<lambda>p. if fst p = imf_id ?g then (imf_id ?g, st) else p) (map id_status (files s))"
    unfolding f using upd by (rule id_status_update_set)
  have a: "distinct (map imf_id (files ?s'))" "set (map imf_id (files ?s')) \<subseteq> seen"
    using ok unfolding ids ids_ok_def by blast+
  have c: "distinct (map imf_id ?rest)"
    using ok True by (intro distinct_rest) (simp_all add: ids_ok_def)
  have d: "\<forall>h \<in> set ?rest. \<forall>p \<in> set (map id_status (files ?s')).
             fst p = imf_id h \<longrightarrow> snd p = Uploading"
  proof (intro ballI impI)
    fix h p
    assume h: "h \<in> set ?rest" and p: "p \<in> set (map id_status (files ?s'))"
      and eq: "fst p = imf_id h"
    have ne: "imf_id h \<noteq> imf_id ?g"
      using ok True h by (intro distinct_nth_rest) (simp_all add: ids_ok_def)
    from p have "p \<in> (\<lambda>p. if fst p = imf_id ?g then (imf_id ?g, st) else p)
                     ` set (map id_status (files s))"
      unfolding ist by (simp only: set_map)
    then obtain q where q: "q \<in> set (map id_status (files s))"
      "p = (if fst q = imf_id ?g then (imf_id ?g, st) else q)"
      by (rule imageE)
    have "p = q" using q(2) eq ne by (auto split: if_splits)
    moreover have "h \<in> set (inflight s)"
      using h by (auto dest: in_set_takeD in_set_dropD)
    ultimately show "snd p = Uploading" using ok eq q(1) unfolding ids_ok_def by blast
  qed
  have e: "?rest \<noteq> [] \<longrightarrow> isUploading ?s'"
    using up ok True unfolding ids_ok_def by fastforce
  show ?thesis unfolding ids_ok_def fl using a c d e by blast
qed

lemma upload_progress_fields:
  "map imf_id (files (upload_progress k pct s)) = map imf_id (files s)"
  "map id_status (files (upload_progress k pct s)) = map id_status (files s)"
  "inflight (upload_progress k pct s) = inflight s"
  "isUploading (upload_progress k pct s) = isUploading s"
  by (simp_all add: upload_progress_def update_by_id_def id_status_def)

lemma ids_ok_step:
  assumes ok: "ids_ok seen s" and fr: "fresh seen e"
  shows "ids_ok (seen \<union> set (assigned_ids [e])) (step maxFiles s e)"
proof (cases e)
  case (Drop acc rej)
  show ?thesis
  proof (cases "isUploading s")
    case True
    then show ?thesis using ok Drop by (auto intro: ids_ok_mono)
  next
    case False
    then show ?thesis using ok fr Drop ids_ok_onDrop by simp
  qed
next
  case (RemoveFile i)
  have "inflight s \<noteq> [] \<longrightarrow> isUploading s" using ok by (simp add: ids_ok_def)
  then show ?thesis
    using ok RemoveFile by (auto simp: ids_ok_def removeFile_def distinct_map_filter)
next
  case ClearAllFiles
  then show ?thesis using ok by (auto simp: ids_ok_def clearAllFiles_def)
next
  case UploadFiles
  then show ?thesis using ok ids_ok_uploadFiles by simp
next
  case (UploadProgress k pct)
  then show ?thesis
    using ok unfolding ids_ok_def by (simp only: step.simps upload_progress_fields assigned_ids.simps) simp
next
  case (UploadSettled k answer)
  then show ?thesis using ok ids_ok_settle by simp
qed

lemma ids_ok_run:
  "distinct (assigned_ids evs) \<Longrightarrow> ids_ok (set (assigned_ids evs)) (run maxFiles evs)"
proof (induction evs rule: rev_induct)
  case Nil
  show ?case by (simp add: run_Nil ids_ok_def initial_def)
next
  case (snoc e evs)
  then have "ids_ok (set (assigned_ids evs)) (run maxFiles evs)"
    and "fresh (set (assigned_ids evs)) e"
    by (auto simp: assigned_ids_append fresh_def)
  then show ?case
    using ids_ok_step by (simp add: run_snoc assigned_ids_append)
qed

subsection \<open>Terminal statuses are final\<close>


lemma same_id_same:
  assumes "distinct (map imf_id fs)" "f \<in> set fs" "f' \<in> set fs" "imf_id f' = imf_id f"
  shows "f' = f"
  using assms by (auto simp: distinct_map dest: inj_onD)

lemma status_le_refl: "status_le st st"
  by (simp add: status_le_def)

lemma status_le_trans: "status_le a b \<Longrightarrow> status_le b c \<Longrightarrow> status_le a c"
  by (auto simp: status_le_def terminal_def)

lemma status_le_terminal: "terminal st \<Longrightarrow> status_le st st' \<Longrightarrow> st' = st"
  by (auto simp: status_le_def terminal_def)

lemma update_by_id_cases:
  assumes d: "distinct (map imf_id fs)" and f: "f \<in> set fs"
    and upd: "\<And>x. imf_id (upd x) = imf_id x"
    and f': "f' \<in> set (update_by_id i upd fs)" and eq: "imf_id f' = imf_id f"
  shows "f' = (if imf_id f = i then upd f else f)"
proof -
  from f' obtain x where x: "x \<in> set fs" "f' = (if imf_id x = i then upd x else x)"
    by (auto simp: update_by_id_def)
  then have "imf_id x = imf_id f" using eq upd by (auto split: if_splits)
  then have "x = f" using d f x(1) by (intro same_id_same)
  then show ?thesis using x(2) by simp
qed

lemma inflight_uploading:
  assumes ok: "ids_ok seen s" and k: "k < length (inflight s)"
    and f: "f \<in> set (files s)" and eq: "imf_id f = imf_id (inflight s ! k)"
  shows "imf_status f = Uploading"
proof -
  have "inflight s ! k \<in> set (inflight s)" using k by simp
  moreover have "id_status f \<in> set (map id_status (files s))" using f by simp
  ultimately have "snd (id_status f) = Uploading"
    using ok eq unfolding ids_ok_def by (metis fst_conv id_status_def)
  then show ?thesis by (simp add: id_status_def)
qed

lemma settle_upload_files:
  assumes "k < length (inflight s)"
  shows "\<exists>upd st. files (settle_upload k answer s)
             = update_by_id (imf_id (inflight s ! k)) upd (files s)
           \<and> (\<forall>f. imf_id (upd f) = imf_id f) \<and> (\<forall>f. imf_status (upd f) = st) \<and> terminal st"
proof (cases "fst (uploadImage (\<lambda>_. answer) (imf_file (inflight s ! k)) [])")
  case (Inl err)
  let ?upd = "\<lambda>f. f\<lparr>imf_status := Failed,
                 imf_error := Some \<lparr>error_code = ''upload'', error_text = error_message err\<rparr>,
                 imf_progress := 0\<rparr>"
  have "files (settle_upload k answer s) = update_by_id (imf_id (inflight s ! k)) ?upd (files s)"
    using assms Inl by (simp add: settle_upload_def Let_def finish_batch_def)
  moreover have "(\<forall>f. imf_id (?upd f) = imf_id f) \<and> (\<forall>f. imf_status (?upd f) = Failed)
      \<and> terminal Failed"
    by (simp add: terminal_def)
  ultimately show ?thesis by (intro exI [of _ ?upd] exI [of _ Failed] conjI) simp_all
next
  case (Inr response)
  let ?upd = "\<lambda>f. f\<lparr>imf_status := Completed, imf_response := Some response,
                 imf_progress := 100\<rparr>"
  have "files (settle_upload k answer s) = update_by_id (imf_id (inflight s ! k)) ?upd (files s)"
    using assms Inr by (simp add: settle_upload_def Let_def finish_batch_def)
  moreover have "(\<forall>f. imf_id (?upd f) = imf_id f) \<and> (\<forall>f. imf_status (?upd f) = Completed)
      \<and> terminal Completed"
    by (simp add: terminal_def)
  ultimately show ?thesis by (intro exI [of _ ?upd] exI [of _ Completed] conjI) simp_all
qed

lemma step_advances:
  assumes ok: "ids_ok seen s" and fr: "fresh seen e"
    and f: "f \<in> set (files s)"
    and f': "f' \<in> set (files (step maxFiles s e))" and eq: "imf_id f' = imf_id f"
  shows "status_le (imf_status f) (imf_status f')"
proof -
  have d: "distinct (map imf_id (files s))" using ok by (simp add: ids_ok_def)
  have seen: "imf_id f \<in> seen" using ok f unfolding ids_ok_def by auto
  have same: "status_le (imf_status f) (imf_status f')" if "f' \<in> set (files s)"
  proof -
    have "f' = f" using d f that eq by (rule same_id_same)
    then show ?thesis by (simp add: status_le_refl)
  qed
  show ?thesis
  proof (cases e)
    case (Drop acc rej)
    show ?thesis
    proof (cases "isUploading s")
      case True
      then show ?thesis using Drop f' same by simp
    next
      case False
      then have "f' \<in> set (take maxFiles (files s @ newImageFiles acc))"
        using Drop f' by (simp add: files_onDrop)
      then have "f' \<in> set (files s) \<or> f' \<in> set (newImageFiles acc)"
        by (auto dest: in_set_takeD)
      moreover have "f' \<notin> set (newImageFiles acc)"
      proof
        assume "f' \<in> set (newImageFiles acc)"
        then have "imf_id f' \<in> set (assigned_ids [e])" using Drop by simp
        then show False using fr seen eq by (auto simp: fresh_def)
      qed
      ultimately show ?thesis using same by blast
    qed
  next
    case (RemoveFile i)
    then have "f' \<in> set (files s)"
      using f' by (auto simp: removeFile_def split: if_splits)
    then show ?thesis by (rule same)
  next
    case ClearAllFiles
    then have "f' \<in> set (files s)"
      using f' by (auto simp: clearAllFiles_def split: if_splits)
    then show ?thesis by (rule same)
  next
    case UploadFiles
    let ?ps = "filter (\<lambda>f. imf_status f = Pending) (files s)"
    show ?thesis
    proof (cases "isUploading s \<or> ?ps = []")
      case True
      then show ?thesis using UploadFiles f' same by auto
    next
      case False
      then have "files (step maxFiles s e)
         = map (\<lambda>x. if imf_id x \<in> imf_id ` set ?ps then x\<lparr>imf_status := Uploading\<rparr> else x)
             (files s)"
        using UploadFiles by (simp add: uploadFiles_def Let_def files_fold_start_upload)
      then obtain x where x: "x \<in> set (files s)"
        "f' = (if imf_id x \<in> imf_id ` set ?ps then x\<lparr>imf_status := Uploading\<rparr> else x)"
        using f' by auto
      then have "imf_id x = imf_id f" using eq by (auto split: if_splits)
      then have xf: "x = f" using d f x(1) by (intro same_id_same)
      show ?thesis
      proof (cases "imf_id f \<in> imf_id ` set ?ps")
        case True
        then obtain p where p: "p \<in> set (files s)" "imf_status p = Pending" "imf_id p = imf_id f"
          by auto
        then have "p = f" using d f by (intro same_id_same)
        then have "imf_status f = Pending" using p(2) by simp
        then show ?thesis by (simp add: status_le_def)
      next
        case False
        then show ?thesis using x(2) xf by (simp add: status_le_refl)
      qed
    qed
  next
    case (UploadProgress k pct)
    show ?thesis
    proof (cases "k \<ge> length (inflight s)")
      case True
      then show ?thesis using UploadProgress f' same by (simp add: upload_progress_def)
    next
      case False
      then have "f' \<in> set (update_by_id (imf_id (inflight s ! k))
                 (\<lambda>f. f\<lparr>imf_progress := pct\<rparr>) (files s))"
        using UploadProgress f' by (simp add: upload_progress_def)
      then have "f' = (if imf_id f = imf_id (inflight s ! k)
                       then f\<lparr>imf_progress := pct\<rparr> else f)"
        by (intro update_by_id_cases [OF d f _ _ eq]) simp_all
      then have "imf_status f' = imf_status f" by (simp split: if_splits)
      then show ?thesis by (simp add: status_le_refl)
    qed
  next
    case (UploadSettled k answer)
    show ?thesis
    proof (cases "k < length (inflight s)")
      case False
      then show ?thesis using UploadSettled f' same by (simp add: settle_upload_def)
    next
      case True
      from settle_upload_files [OF True, of answer]
      obtain upd st where
        fs: "files (settle_upload k answer s) = update_by_id (imf_id (inflight s ! k)) upd (files s)"
        and upd: "\<forall>f. imf_id (upd f) = imf_id f" "\<forall>f. imf_status (upd f) = st"
        and st: "terminal st"
        by blast
      have "f' \<in> set (update_by_id (imf_id (inflight s ! k)) upd (files s))"
        using UploadSettled f' fs by simp
      then have c: "f' = (if imf_id f = imf_id (inflight s ! k) then upd f else f)"
        using upd(1) by (intro update_by_id_cases [OF d f _ _ eq]) simp_all
      show ?thesis
      proof (cases "imf_id f = imf_id (inflight s ! k)")
        case True
        then have "imf_status f = Uploading"
          using ok \<open>k < length (inflight s)\<close> f by (intro inflight_uploading)
        then show ?thesis using c True upd(2) st by (simp add: status_le_def)
      next
        case False
        then show ?thesis using c by (simp add: status_le_refl)
      qed
    qed
  qed
qed

lemma step_provenance:
  assumes "f' \<in> set (files (step maxFiles s e))"
  shows "imf_id f' \<in> set (map imf_id (files s)) \<union> set (assigned_ids [e])"
proof (cases e)
  case (Drop acc rej)
  then have "f' \<in> set (files s) \<or> f' \<in> set (take maxFiles (files s @ newImageFiles acc))"
    using assms by (auto simp: files_onDrop split: if_splits)
  then have "f' \<in> set (files s) \<or> f' \<in> set (newImageFiles acc)"
    by (auto dest: in_set_takeD)
  then show ?thesis using Drop by auto
next
  case (RemoveFile i)
  then show ?thesis using assms by (auto simp: removeFile_def split: if_splits)
next
  case ClearAllFiles
  then show ?thesis using assms by (auto simp: clearAllFiles_def split: if_splits)
next
  case UploadFiles
  have "map imf_id (files (uploadFiles s)) = map imf_id (files s)"
    by (simp add: uploadFiles_def Let_def files_fold_start_upload)
  then have "map imf_id (files (step maxFiles s e)) = map imf_id (files s)"
    using UploadFiles by simp
  then show ?thesis using assms by (metis UnI1 image_eqI set_map)
next
  case (UploadProgress k pct)
  then have "map imf_id (files (step maxFiles s e)) = map imf_id (files s)"
    by (simp add: upload_progress_fields)
  then show ?thesis using assms by (metis UnI1 image_eqI set_map)
next
  case (UploadSettled k answer)
  have "map imf_id (files (settle_upload k answer s)) = map imf_id (files s)"
  proof (cases "k < length (inflight s)")
    case True
    from settle_upload_fields [OF True, of answer]
    obtain upd st where
      "files (settle_upload k answer s) = update_by_id (imf_id (inflight s ! k)) upd (files s)"
      and "\<And>f. imf_id (upd f) = imf_id f"
      by blast
    then show ?thesis by (simp add: update_by_id_def)
  next
    case False
    then show ?thesis by (simp add: settle_upload_def)
  qed
  then have "map imf_id (files (step maxFiles s e)) = map imf_id (files s)"
    using UploadSettled by simp
  then show ?thesis using assms by (metis UnI1 image_eqI set_map)
qed

text \<open>
  The updates of the list find an entry by its id and do not read its status. Where the ids
  that the drops of a trace assign are pairwise distinct, which is what an id made of the
  clock and the position aims at, the status of the entry with a given id only moves
  forward along pending, uploading, then completed or failed, for as long as the entry is
  in the list, and an entry whose status is \<open>Completed\<close> or \<open>Failed\<close> keeps it. The code
  does not make the ids distinct: two drops at the same reading of the clock assign the same
  ids, and the property of the component is then lost, as shown further below.
\<close>

lemma status_final_distinct_ids:
  assumes "distinct (assigned_ids (evs1 @ evs2))"
    and "f \<in> set (files (run maxFiles evs1))"
    and "f' \<in> set (files (run maxFiles (evs1 @ evs2)))" and "imf_id f' = imf_id f"
  shows "status_le (imf_status f) (imf_status f')
         \<and> (terminal (imf_status f) \<longrightarrow> imf_status f' = imf_status f)"
proof -
  have seen1: "imf_id f \<in> set (assigned_ids evs1)"
  proof -
    have "ids_ok (set (assigned_ids evs1)) (run maxFiles evs1)"
      using assms(1) by (intro ids_ok_run) (simp add: assigned_ids_append)
    then show ?thesis using assms(2) unfolding ids_ok_def by auto
  qed
  have le: "status_le (imf_status f) (imf_status f')"
    using assms(1,3,4)
  proof (induction evs2 arbitrary: f' rule: rev_induct)
    case Nil
    have "ids_ok (set (assigned_ids evs1)) (run maxFiles evs1)"
      using Nil.prems(1) by (intro ids_ok_run) simp
    then have "distinct (map imf_id (files (run maxFiles evs1)))" by (simp add: ids_ok_def)
    then have "f' = f" using assms(2) Nil.prems by (intro same_id_same) simp_all
    then show ?case by (simp add: status_le_refl)
  next
    case (snoc e evs2)
    let ?s = "run maxFiles (evs1 @ evs2)"
    have dist: "distinct (assigned_ids (evs1 @ evs2))"
      and fr: "fresh (set (assigned_ids (evs1 @ evs2))) e"
      using snoc.prems(1) by (auto simp: assigned_ids_append fresh_def)
    have ok: "ids_ok (set (assigned_ids (evs1 @ evs2))) ?s"
      using dist by (rule ids_ok_run)
    have f'': "f' \<in> set (files (step maxFiles ?s e))"
      using snoc.prems(2) by (simp add: run_snoc [symmetric])
    have "imf_id f \<notin> set (assigned_ids [e])"
      using fr seen1 by (auto simp: fresh_def assigned_ids_append)
    then have "imf_id f \<in> set (map imf_id (files ?s))"
      using step_provenance [OF f''] snoc.prems(3) by auto
    then obtain x where x: "x \<in> set (files ?s)" "imf_id x = imf_id f" by auto
    have a: "status_le (imf_status f) (imf_status x)"
      using snoc.IH [OF dist x] .
    have eq: "imf_id f' = imf_id x" using snoc.prems(3) x(2) by simp
    have b: "status_le (imf_status x) (imf_status f')"
      by (rule step_advances [OF ok fr x(1) f'' eq])
    show ?case using a b by (rule status_le_trans)
  qed
  then show ?thesis by (auto dest: status_le_terminal)
qed

subsection \<open>Evaluating the component on concrete inputs\<close>

lemmas uploader_eval =
  onDrop_def newImageFiles_def newImageFile_def Let_def
  validateImageFile_def truthy_def maxFileSize_def allowedTypes_def
  uploadFiles_def start_upload_def update_by_id_def settle_upload_def upload_progress_def
  uploadImage_def uploadImage_request_def uploadImage_settle_def upload_error_def
  finish_batch_def removeFile_def clearAllFiles_def slice_def
  enumerate_eq_zip rejection_toast_def or_default_def
  example_png_def example_bmp_def example_big_def

lemma length_newImageFiles: "length (newImageFiles acc) = length acc"
  by (simp add: newImageFiles_def)

lemma toasts_onDrop:
  "toasts (onDrop maxFiles acc rej s)
     = toasts s
       @ concat (map (\<lambda>(file, errors). map (rejection_toast maxFiles file) errors) rej)
       @ (if maxFiles < length (files s) + length acc then [ToastMaxFiles maxFiles] else [])"
  by (simp add: onDrop_def Let_def length_newImageFiles)

lemma uploadCalls_uploadFiles:
  "uploadCalls (uploadFiles s)
     = uploadCalls s @ map imf_file (filter (\<lambda>f. imf_status f = Pending) (files s))"
  by (simp add: uploadFiles_def Let_def uploadCalls_fold_start_upload)

subsection \<open>Claims about the component\<close>

text \<open>
  Claim C7. Once the status of a record is completed or failed, no later operation changes
  it. The component breaks this: the id of an entry, the reading of the clock and the
  position in the drop, is meant to tell the entries apart, but two drops at the same
  reading of the clock give their files the same ids, and the updates of an upload, which
  find the entry by its id, then change every entry that carries it. A BMP image that the
  dropzone lets through fails the validation and is \<open>Failed\<close> at once; a valid image
  dropped next, at the same reading of the clock, gets the same id; the upload of the second
  marks both entries \<open>Uploading\<close> and then \<open>Completed\<close>, so the failed entry ends
  \<open>Completed\<close>.
\<close>

theorem terminal_final_counterexample:
  "map id_status (files (run 10 [Drop [(1000, example_bmp)] []])) = [((1000, 0), Failed)]
   \<and> map id_status (files (run 10 ([Drop [(1000, example_bmp)] []]
        @ [Drop [(1000, example_png)] [], UploadFiles, UploadSettled 0 (Inr example_response)])))
      = [((1000, 0), Completed), ((1000, 0), Completed)]"
proof -
  let ?err = "Some \<lparr>error_code = ''validation'',
     error_text = ''Unsupported file format. Only JPEG, PNG, GIF and WebP are supported.''\<rparr>"
  let ?b = "\<lambda>st p r. \<lparr>imf_file = example_bmp, imf_id = (1000, 0), imf_status = st,
     imf_progress = p, imf_response = r, imf_error = ?err\<rparr>"
  let ?p = "\<lambda>st p r. \<lparr>imf_file = example_png, imf_id = (1000, 0), imf_status = st,
     imf_progress = p, imf_response = r, imf_error = None\<rparr>"
  let ?s1 = "initial\<lparr>files := [?b Failed 0 None]\<rparr>"
  let ?s2 = "initial\<lparr>files := [?b Failed 0 None, ?p Pending 0 None]\<rparr>"
  let ?s3 = "initial\<lparr>files := [?b Uploading 0 None, ?p Uploading 0 None], isUploading := True,
     inflight := [?p Pending 0 None], uploadCalls := [example_png], requests := [example_png]\<rparr>"
  let ?s4 = "initial\<lparr>files := [?b Completed 100 (Some example_response),
       ?p Completed 100 (Some example_response)],
     toasts := [ToastUploadDone 1], uploadCalls := [example_png], requests := [example_png]\<rparr>"
  have a1: "step 10 initial (Drop [(1000, example_bmp)] []) = ?s1"
    by (simp add: uploader_eval initial_def)
  have a2: "step 10 ?s1 (Drop [(1000, example_png)] []) = ?s2"
    by (simp add: uploader_eval initial_def)
  have a3: "step 10 ?s2 UploadFiles = ?s3"
    by (simp add: uploader_eval initial_def)
  have a4: "step 10 ?s3 (UploadSettled 0 (Inr example_response)) = ?s4"
    by (simp add: uploader_eval initial_def)
  have r1: "run 10 [Drop [(1000, example_bmp)] []] = ?s1"
    by (simp only: run_def foldl.simps a1)
  have r4: "run 10 ([Drop [(1000, example_bmp)] []]
        @ [Drop [(1000, example_png)] [], UploadFiles, UploadSettled 0 (Inr example_response)]) = ?s4"
    by (simp only: run_def foldl.simps append.simps a1 a2 a3 a4)
  show ?thesis unfolding r1 r4 by (simp add: id_status_def)
qed

text \<open>
  With distinct ids the same events leave the failed entry as it is: the second drop is at
  another reading of the clock, and its upload fails.
\<close>

lemma status_final_distinct_ids_example:
  "distinct (assigned_ids ([Drop [(1000, example_bmp)] []]
      @ [Drop [(2000, example_png)] [], UploadFiles, UploadSettled 0 (Inl NoResponse)]))
   \<and> map id_status (files (run 10 [Drop [(1000, example_bmp)] []])) = [((1000, 0), Failed)]
   \<and> map id_status (files (run 10 ([Drop [(1000, example_bmp)] []]
        @ [Drop [(2000, example_png)] [], UploadFiles, UploadSettled 0 (Inl NoResponse)])))
      = [((1000, 0), Failed), ((2000, 0), Failed)]"
proof -
  let ?tr1 = "[Drop [(1000, example_bmp)] []]"
  let ?tr2 = "[Drop [(2000, example_png)] [], UploadFiles, UploadSettled 0 (Inl NoResponse)]"
  let ?err = "Some \<lparr>error_code = ''validation'',
     error_text = ''Unsupported file format. Only JPEG, PNG, GIF and WebP are supported.''\<rparr>"
  let ?b = "\<lparr>imf_file = example_bmp, imf_id = (1000, 0), imf_status = Failed,
     imf_progress = 0, imf_response = None, imf_error = ?err\<rparr>"
  let ?p = "\<lambda>st e. \<lparr>imf_file = example_png, imf_id = (2000, 0), imf_status = st,
     imf_progress = 0, imf_response = None, imf_error = e\<rparr>"
  let ?p' = "?p Failed (Some \<lparr>error_code = ''upload'', error_text = ''A network error occurred''\<rparr>)"
  let ?s1 = "initial\<lparr>files := [?b]\<rparr>"
  let ?s2 = "initial\<lparr>files := [?b, ?p Pending None]\<rparr>"
  let ?s3 = "initial\<lparr>files := [?b, ?p Uploading None], isUploading := True,
     inflight := [?p Pending None], uploadCalls := [example_png], requests := [example_png]\<rparr>"
  let ?s4 = "initial\<lparr>files := [?b, ?p'],
     toasts := [ToastUploadFailed ''photo.png'' ''A network error occurred''],
     uploadCalls := [example_png], requests := [example_png]\<rparr>"
  have a1: "step 10 initial (Drop [(1000, example_bmp)] []) = ?s1"
    by (simp add: uploader_eval initial_def)
  have a2: "step 10 ?s1 (Drop [(2000, example_png)] []) = ?s2"
    by (simp add: uploader_eval initial_def)
  have a3: "step 10 ?s2 UploadFiles = ?s3"
    by (simp add: uploader_eval initial_def)
  have a4: "step 10 ?s3 (UploadSettled 0 (Inl NoResponse)) = ?s4"
    by (simp add: uploader_eval initial_def)
  have r1: "run 10 ?tr1 = ?s1"
    by (simp only: run_def foldl.simps a1)
  have r4: "run 10 (?tr1 @ ?tr2) = ?s4"
    by (simp only: run_def foldl.simps append.simps a1 a2 a3 a4)
  have h1: "distinct (assigned_ids (?tr1 @ ?tr2))"
    by (simp add: newImageFiles_def newImageFile_def Let_def enumerate_eq_zip)
  have h2: "?b \<in> set (files (run 10 ?tr1))" unfolding r1 by simp
  have h4: "?b \<in> set (files (run 10 (?tr1 @ ?tr2)))" unfolding r4 by simp
  from status_final_distinct_ids [OF h1 h2 h4 refl] h1 show ?thesis
    unfolding r1 r4 by (simp add: id_status_def)
qed

text \<open>
  Claim C6, as stated, read on the files that overflow the list. With nine files in the list
  and the default limit of ten, a drop of three accepted files leaves two of them out, and
  the only report is one toast for the whole drop.
\<close>

theorem onDrop_reports_counterexample:
  "\<not> excess_files_reported 10 (replicate 3 (2000, example_png)) []
       (onDrop 10 (replicate 9 (1000, example_png)) [] initial)"
proof -
  let ?s = "onDrop 10 (replicate 9 (1000, example_png)) [] initial"
  let ?s' = "onDrop 10 (replicate 3 (2000, example_png)) [] ?s"
  have n: "length (files ?s) = 9"
    by (simp add: files_onDrop length_newImageFiles initial_def)
  have t: "toasts ?s = []"
    by (simp add: toasts_onDrop initial_def)
  have n': "length (files ?s') = 10"
    using n by (simp add: files_onDrop length_newImageFiles)
  have t': "toasts ?s' = [ToastMaxFiles 10]"
    using n t by (simp add: toasts_onDrop)
  show ?thesis
    unfolding excess_files_reported_def n n' t t' by simp
qed

text \<open>
  Claim C6, as amended. \<open>onDrop\<close> shows one error toast for each error of each file that the
  dropzone rejected, chosen by the code of the error: a too-large and an invalid-type message
  that name the file, a too-many-files message that gives the limit, and for any other code
  a file-error message with the text of the error. An accepted file that fails
  \<open>validateImageFile\<close> is kept with the status \<open>Failed\<close> and the message of the validation.
  When the list with the accepted files appended is longer than \<open>maxFiles\<close> it is cut to
  its first \<open>maxFiles\<close> entries and one toast giving the limit is shown for the drop.
\<close>

theorem onDrop_reports:
  "toasts (onDrop maxFiles acc rej s)
     = toasts s
       @ concat (map (\<lambda>(file, errors). map (rejection_toast maxFiles file) errors) rej)
       @ (if maxFiles < length (files s) + length acc then [ToastMaxFiles maxFiles] else [])
   \<and> files (onDrop maxFiles acc rej s) = take maxFiles (files s @ newImageFiles acc)
   \<and> rejection_toast maxFiles file (''file-too-large'', m) = ToastFileTooLarge (file_name file)
   \<and> rejection_toast maxFiles file (''file-invalid-type'', m) = ToastInvalidType (file_name file)
   \<and> rejection_toast maxFiles file (''too-many-files'', m) = ToastTooManyFiles maxFiles
   \<and> (c \<noteq> ''file-too-large'' \<and> c \<noteq> ''file-invalid-type'' \<and> c \<noteq> ''too-many-files''
        \<longrightarrow> rejection_toast maxFiles file (c, m) = ToastFileError m)
   \<and> (\<forall>msg. validateImageFile file = Some msg \<longrightarrow>
         imf_status (newImageFile now file index) = Failed
         \<and> imf_error (newImageFile now file index)
             = Some \<lparr>error_code = ''validation'', error_text = msg\<rparr>)"
proof -
  have "\<forall>msg. validateImageFile file = Some msg \<longrightarrow>
         imf_status (newImageFile now file index) = Failed
         \<and> imf_error (newImageFile now file index)
             = Some \<lparr>error_code = ''validation'', error_text = msg\<rparr>"
  proof (intro allI impI)
    fix msg assume m: "validateImageFile file = Some msg"
    then have "validateImageFile file \<noteq> None" by simp
    then have "truthy (validateImageFile file)" by (simp add: validateImageFile_truthy)
    then show "imf_status (newImageFile now file index) = Failed
         \<and> imf_error (newImageFile now file index)
             = Some \<lparr>error_code = ''validation'', error_text = msg\<rparr>"
      using m by (simp add: newImageFile_def Let_def)
  qed
  then show ?thesis
    by (simp add: toasts_onDrop files_onDrop rejection_toast_def)
qed

theorem onDrop_reports_witness:
  "toasts (onDrop 10 [(1000, example_bmp)]
       [(example_big, [(''file-too-large'', ''File is larger than 10485760 bytes'')]),
        (example_png, [(''file-too-small'', ''File is smaller than 1 bytes'')])] initial)
     = [ToastFileTooLarge ''big.png'', ToastFileError ''File is smaller than 1 bytes'']
   \<and> map id_status (files (onDrop 10 [(1000, example_bmp)]
       [(example_big, [(''file-too-large'', ''File is larger than 10485760 bytes'')]),
        (example_png, [(''file-too-small'', ''File is smaller than 1 bytes'')])] initial))
     = [((1000, 0), Failed)]
   \<and> imf_error (newImageFile 1000 example_bmp 0)
     = Some \<lparr>error_code = ''validation'',
         error_text = ''Unsupported file format. Only JPEG, PNG, GIF and WebP are supported.''\<rparr>"
proof -
  have v: "validateImageFile example_bmp
      = Some ''Unsupported file format. Only JPEG, PNG, GIF and WebP are supported.''"
    by (simp add: validateImageFile_def example_bmp_def maxFileSize_def allowedTypes_def)
  have c: "''file-too-small'' \<noteq> ''file-too-large'' \<and> ''file-too-small'' \<noteq> ''file-invalid-type''
      \<and> ''file-too-small'' \<noteq> ''too-many-files''"
    by simp
  from onDrop_reports [of 10 "[(1000, example_bmp)]"
      "[(example_big, [(''file-too-large'', ''File is larger than 10485760 bytes'')]),
        (example_png, [(''file-too-small'', ''File is smaller than 1 bytes'')])]"
      initial example_bmp "''File is smaller than 1 bytes''" "''file-too-small''" 1000 0] v c
  show ?thesis
    by (simp add: initial_def rejection_toast_def newImageFiles_def enumerate_eq_zip
        id_status_def example_big_def example_png_def newImageFile_id newImageFile_status)
qed

text \<open>
  Claim C9. A file that fails the client-side validation is never uploaded: \<open>onDrop\<close> gives
  the status \<open>Failed\<close> to the record of a file for which \<open>validateImageFile\<close> returns an
  error, \<open>uploadFiles\<close> calls \<open>uploadImage\<close> on the files of the pending entries and on no
  other, and along every trace of the component every file that \<open>uploadImage\<close> was called
  with passes the validation.
\<close>

theorem validation_failed_never_uploaded:
  "(validateImageFile file \<noteq> None \<longrightarrow> imf_status (newImageFile now file index) = Failed)
   \<and> uploadCalls (uploadFiles s)
       = uploadCalls s @ map imf_file (filter (\<lambda>f. imf_status f = Pending) (files s))
   \<and> (\<forall>file \<in> set (uploadCalls (run maxFiles evs)). validateImageFile file = None)"
proof -
  have "pending_valid (run maxFiles evs)" by (rule pending_valid_run)
  then have "\<forall>file \<in> set (uploadCalls (run maxFiles evs)). validateImageFile file = None"
    by (simp add: pending_valid_def)
  then show ?thesis
    by (simp add: newImageFile_status uploadCalls_uploadFiles)
qed

theorem validation_failed_never_uploaded_witness:
  "validateImageFile example_bmp \<noteq> None
   \<and> imf_status (newImageFile 1000 example_bmp 0) = Failed
   \<and> uploadCalls (run 10 [Drop [(1000, example_bmp), (1000, example_png)] [], UploadFiles])
       = [example_png]
   \<and> validateImageFile example_png = None"
proof -
  let ?tr = "[Drop [(1000, example_bmp), (1000, example_png)] [], UploadFiles]"
  let ?err = "Some \<lparr>error_code = ''validation'',
     error_text = ''Unsupported file format. Only JPEG, PNG, GIF and WebP are supported.''\<rparr>"
  let ?b = "\<lparr>imf_file = example_bmp, imf_id = (1000, 0), imf_status = Failed,
     imf_progress = 0, imf_response = None, imf_error = ?err\<rparr>"
  let ?p = "\<lambda>st. \<lparr>imf_file = example_png, imf_id = (1000, 1), imf_status = st,
     imf_progress = 0, imf_response = None, imf_error = None\<rparr>"
  let ?s1 = "initial\<lparr>files := [?b, ?p Pending]\<rparr>"
  let ?s2 = "initial\<lparr>files := [?b, ?p Uploading], isUploading := True,
     inflight := [?p Pending], uploadCalls := [example_png], requests := [example_png]\<rparr>"
  have a1: "step 10 initial (Drop [(1000, example_bmp), (1000, example_png)] []) = ?s1"
    by (simp add: uploader_eval initial_def)
  have a2: "step 10 ?s1 UploadFiles = ?s2"
    by (simp add: uploader_eval initial_def)
  have r: "run 10 ?tr = ?s2"
    by (simp only: run_def foldl.simps a1 a2)
  have v: "validateImageFile example_bmp \<noteq> None"
    by (simp add: validateImageFile_def example_bmp_def maxFileSize_def allowedTypes_def)
  from validation_failed_never_uploaded [of example_bmp 1000 0 initial 10 ?tr] v
  show ?thesis unfolding r by (simp add: initial_def)
qed

subsection \<open>The search and analysis services\<close>

lemma threatLevels_SAFE:
  assumes "k < length threatLevels"
  shows "threatLevels ! k = SAFE \<longleftrightarrow> k = 0"
proof -
  have "k < 5" using assms by (simp add: threatLevels_def)
  then have "k = 0 \<or> k = 1 \<or> k = 2 \<or> k = 3 \<or> k = 4" by arith
  then show ?thesis by (auto simp: threatLevels_def)
qed

lemma in_map_filter:
  "y \<in> set (List.map_filter f xs) \<Longrightarrow> \<exists>x \<in> set xs. f x = Some y"
  by (auto simp: List.map_filter_def)

lemma mockResult_fields:
  assumes "mockResult params i d = Some r"
  shows "sr_domain r = mockDomains ! d_domainIndex d"
    and "sr_threatLevel r = threatLevels ! d_threatLevelIndex d"
    and "sr_threatScore r = getThreatScore (sr_threatLevel r) (d_scaled d)"
  using assms by (auto simp: mockResult_def pick_def Let_def split: if_splits)

text \<open>
  Claim C1, as amended. \<open>generateMockSearchResults\<close> reads no whitelist. Each result that
  it returns comes from one round of its loop, in which the domain and the threat level
  are read from their lists at two indices computed separately, each from a call of
  \<^verbatim>\<open>Math.random()\<close> of its own: the domain is \<^verbatim>\<open>mockDomains[j]\<close> and the threat level is
  \<^verbatim>\<open>threatLevels[k]\<close> for the indices \<open>j\<close> and \<open>k\<close> computed in that round, so the threat
  level is \<open>SAFE\<close> exactly when \<open>k = 0\<close>, whatever the domain. The indices that the code
  computes are below the lengths of the lists.
\<close>

theorem threatLevel_from_draw:
  assumes "r \<in> set (srr_results (generateMockSearchResults params m))"
  shows "\<exists>i. mockResult params i (m_round m i) = Some r
           \<and> (d_domainIndex (m_round m i) < length mockDomains \<longrightarrow>
                sr_domain r = mockDomains ! d_domainIndex (m_round m i))
           \<and> (d_threatLevelIndex (m_round m i) < length threatLevels \<longrightarrow>
                sr_threatLevel r = threatLevels ! d_threatLevelIndex (m_round m i)
                \<and> (sr_threatLevel r = SAFE \<longleftrightarrow> d_threatLevelIndex (m_round m i) = 0))"
proof -
  from assms obtain i where i: "mockResult params i (m_round m i) = Some r"
    by (auto simp: generateMockSearchResults_def Let_def dest!: in_map_filter)
  have d: "sr_domain r = mockDomains ! d_domainIndex (m_round m i)"
    and t: "sr_threatLevel r = threatLevels ! d_threatLevelIndex (m_round m i)"
    using i by (rule mockResult_fields)+
  have "d_threatLevelIndex (m_round m i) < length threatLevels \<longrightarrow>
          (sr_threatLevel r = SAFE \<longleftrightarrow> d_threatLevelIndex (m_round m i) = 0)"
    unfolding t by (simp add: threatLevels_SAFE)
  then have "mockResult params i (m_round m i) = Some r
      \<and> (d_domainIndex (m_round m i) < length mockDomains \<longrightarrow>
            sr_domain r = mockDomains ! d_domainIndex (m_round m i))
      \<and> (d_threatLevelIndex (m_round m i) < length threatLevels \<longrightarrow>
            sr_threatLevel r = threatLevels ! d_threatLevelIndex (m_round m i)
            \<and> (sr_threatLevel r = SAFE \<longleftrightarrow> d_threatLevelIndex (m_round m i) = 0))"
    using i d t by simp
  then show ?thesis by (rule exI)
qed

lemma example_results:
  "map domain_level (srr_results (generateMockSearchResults example_params example_draws))
     = [(''example.com'', HIGH)]"
proof -
  have d: "mockDomains ! d_domainIndex example_round = ''example.com''"
    by (simp add: mockDomains_def example_round_def)
  have l: "threatLevels ! d_threatLevelIndex example_round = HIGH"
    by (simp add: threatLevels_def example_round_def)
  obtain r where r: "mockResult example_params 0 example_round = Some r"
    by (simp add: mockResult_def Let_def example_params_def example_filters_def)
  have "srr_results (generateMockSearchResults example_params example_draws) = [r]"
    using r
    by (simp add: generateMockSearchResults_def Let_def example_params_def example_draws_def
        List.map_filter_def)
  then show ?thesis
    using mockResult_fields(1,2) [OF r] d l by (simp add: domain_level_def)
qed

text \<open>
  Claim C1, as stated: a result whose domain is present and active in the whitelist has the
  threat level \<open>SAFE\<close>. The generator returns a result on the whitelisted domain
  example.com with the threat level \<open>HIGH\<close>.
\<close>

theorem whitelist_ignored_counterexample:
  "whitelisted example_whitelist ''example.com''
   \<and> map domain_level (srr_results (generateMockSearchResults example_params example_draws))
       = [(''example.com'', HIGH)]"
  using example_results by (simp add: whitelisted_def example_whitelist_def)

text \<open>
  Claim C2, as amended. When the call of the API fails, \<open>searchImages\<close> and
  \<open>getAnalysisDetail\<close> write the error to the console and return generated mock data: the
  promise is fulfilled, and the caller sees no failure. When the call succeeds they return
  its response and write nothing.
\<close>

theorem fallback_on_failure:
  "(api (''/api/v1/search/results'', search_query params) = Inl e \<longrightarrow>
      searchImages api params m console
        = (Inr (generateMockSearchResults params m),
           console @ [ConsoleError ''Search images error:'' e]))
   \<and> (api (''/api/v1/search/results'', search_query params) = Inr response \<longrightarrow>
      searchImages api params m console = (Inr response, console))
   \<and> (api' (''/api/v1/analysis/'' @ analysisId, []) = Inl e' \<longrightarrow>
      getAnalysisDetail api' analysisId a console'
        = (Inr (generateMockAnalysisData analysisId a),
           console' @ [ConsoleError ''Get analysis detail error:'' e']))
   \<and> (api' (''/api/v1/analysis/'' @ analysisId, []) = Inr report \<longrightarrow>
      getAnalysisDetail api' analysisId a console' = (Inr report, console'))"
  by (simp add: searchImages_def getAnalysisDetail_def)

text \<open>
  Claim C2, as stated: a failure of the API call is surfaced to the caller and never replaced
  by fabricated data. With an API that does not answer, both functions are fulfilled with
  the mock data.
\<close>

theorem fallback_on_failure_counterexample:
  "failing_api (''/api/v1/search/results'', search_query example_params)
      = (Inl NoResponse :: axios_error + SearchResultsResponse)
   \<and> fst (searchImages failing_api example_params example_draws [])
      = Inr (generateMockSearchResults example_params example_draws)
   \<and> failing_api (''/api/v1/analysis/a1'', [])
      = (Inl NoResponse :: axios_error + AnalysisReportData)
   \<and> fst (getAnalysisDetail failing_api ''a1'' example_analysis_draws [])
      = Inr (generateMockAnalysisData ''a1'' example_analysis_draws)"
  by (simp add: searchImages_def getAnalysisDetail_def failing_api_def)

text \<open>
  Claim C4, as amended. The front end has no configuration of the weights and no check of
  them. The weights of the score breakdown of the mock analysis data are the constants 0.4,
  0.3, 0.2 and 0.1, which sum to 1, and \<open>getAnalysisDetail\<close> returns a report that the API
  answers with as it is, whatever its weights.
\<close>

theorem weights_unchecked:
  "weights (ar_scoreBreakdown (generateMockAnalysisData analysisId a)) = [2 / 5, 3 / 10, 1 / 5, 1 / 10]
   \<and> weight_sum (ar_scoreBreakdown (generateMockAnalysisData analysisId a)) = 1
   \<and> (api (''/api/v1/analysis/'' @ analysisId, []) = Inr report \<longrightarrow>
        getAnalysisDetail api analysisId a console = (Inr report, console))"
  by (simp add: weights_def weight_sum_def generateMockAnalysisData_def getAnalysisDetail_def)

text \<open>
  Claim C4, as stated: weights that do not sum to 1 are rejected by the validation of the
  configuration. A report whose four weights sum to 2 passes through \<open>getAnalysisDetail\<close>
  unchanged, and the validation of the settings, which holds no weights, accepts.
\<close>

theorem weights_unchecked_counterexample:
  "weight_sum (ar_scoreBreakdown example_report) = 2
   \<and> getAnalysisDetail (answering_api example_report) ''a1'' example_analysis_draws []
       = (Inr example_report, [])
   \<and> validateThresholds defaultThresholds = []"
  by (simp add: weights_def weight_sum_def example_report_def example_breakdown_def
      getAnalysisDetail_def answering_api_def validateThresholds_def defaultThresholds_def
      allScores_def)

theorem threatLevel_from_draw_witness:
  "map domain_level (srr_results (generateMockSearchResults example_params example_draws))
     = [(''example.com'', HIGH)]
   \<and> d_domainIndex (m_round example_draws 0) = 0
   \<and> mockDomains ! 0 = ''example.com''
   \<and> d_threatLevelIndex (m_round example_draws 0) = 3
   \<and> threatLevels ! 3 = HIGH"
proof -
  have "srr_results (generateMockSearchResults example_params example_draws) \<noteq> []"
    using example_results by auto
  then obtain r rs where "srr_results (generateMockSearchResults example_params example_draws) = r # rs"
    by (auto simp: neq_Nil_conv)
  then have r: "r \<in> set (srr_results (generateMockSearchResults example_params example_draws))"
    by simp
  have "d_domainIndex (m_round example_draws 0) = 0"
    and "d_threatLevelIndex (m_round example_draws 0) = 3"
    by (simp_all add: example_draws_def example_round_def)
  moreover have "mockDomains ! 0 = ''example.com''" and "threatLevels ! 3 = HIGH"
    by (simp_all add: mockDomains_def threatLevels_def)
  ultimately show ?thesis
    using threatLevel_from_draw [OF r] example_results by simp
qed

theorem fallback_on_failure_witness:
  "searchImages failing_api example_params example_draws []
     = (Inr (generateMockSearchResults example_params example_draws),
        [ConsoleError ''Search images error:'' NoResponse])
   \<and> getAnalysisDetail (answering_api example_report) ''a1'' example_analysis_draws []
     = (Inr example_report, [])"
  using fallback_on_failure [where api = failing_api and params = example_params
      and e = NoResponse and m = example_draws and console = "[]"
      and api' = "answering_api example_report" and analysisId = "''a1''"
      and report = example_report and a = example_analysis_draws and console' = "[]"]
  by (simp add: failing_api_def answering_api_def)

theorem weights_unchecked_witness:
  "weights (ar_scoreBreakdown (generateMockAnalysisData ''a1'' example_analysis_draws))
     = [2 / 5, 3 / 10, 1 / 5, 1 / 10]
   \<and> getAnalysisDetail (answering_api example_report) ''a1'' example_analysis_draws []
     = (Inr example_report, [])"
  using weights_unchecked [where api = "answering_api example_report" and analysisId = "''a1''"
      and report = example_report and a = example_analysis_draws and console = "[]"]
  by (simp add: answering_api_def)

end
